theory Spec2Isabelle
  imports
    Main
    "HOL-Library.Sublist"
    "HOL-Library.List_Lexorder"
    "HOL-Library.Product_Lexorder"
    "HOL-Library.Multiset"
begin

section \<open>Python values\<close>

text \<open>
  A Python \<open>str\<close> is a sequence of Unicode code points, and \<open>ord\<close>, \<open>len\<close>, slicing and
  \<open>replace\<close> all count code points. It is modelled as a list of naturals, one per code
  point. \<open>py\<close> reads an ASCII literal; \<open>cmd s\<close> is a backslash followed by \<open>s\<close>, which is how
  the markup commands of the source's string literals are written here.
\<close>

type_synonym pystr = "nat list"

definition py :: "string \<Rightarrow> pystr" where
  "py s = map of_char s"

definition cmd :: "string \<Rightarrow> pystr" where
  "cmd s = 92 # py s"

text \<open>
  \<open>s.replace(old, new)\<close>: every non-overlapping occurrence of \<open>old\<close>, found scanning from the
  left, becomes \<open>new\<close>. With an empty \<open>old\<close>, Python puts \<open>new\<close> before every character and at
  the end.
\<close>

fun replace_from :: "'a list \<Rightarrow> 'a list \<Rightarrow> 'a list \<Rightarrow> 'a list" where
  "replace_from old new [] = []"
| "replace_from old new (c # cs) =
     (if prefix old (c # cs) then new @ replace_from old new (drop (length old - 1) cs)
      else c # replace_from old new cs)"

definition replace :: "'a list \<Rightarrow> 'a list \<Rightarrow> 'a list \<Rightarrow> 'a list" where
  "replace old new s =
     (if old = [] then new @ concat (map (\<lambda>c. c # new) s) else replace_from old new s)"

text \<open>\<open>sub in s\<close> for strings: \<open>sub\<close> occurs in \<open>s\<close> as a contiguous block.\<close>

fun occurs_in :: "'a list \<Rightarrow> 'a list \<Rightarrow> bool" where
  "occurs_in sub [] = (sub = [])"
| "occurs_in sub (c # cs) = (prefix sub (c # cs) \<or> occurs_in sub cs)"

text \<open>\<open>sep.join(xs)\<close>.\<close>

fun join :: "'a list \<Rightarrow> 'a list list \<Rightarrow> 'a list" where
  "join sep [] = []"
| "join sep [x] = x"
| "join sep (x # y # ys) = x @ sep @ join sep (y # ys)"

text \<open>\<open>s.split(sep)\<close> for a one-character separator; the result is never the empty list.\<close>

fun split :: "'a \<Rightarrow> 'a list \<Rightarrow> 'a list list" where
  "split sep [] = [] # []"
| "split sep (c # cs) =
     (if c = sep then [] # split sep cs
      else (case split sep cs of
              [] \<Rightarrow> [c] # []
            | w # ws \<Rightarrow> (c # w) # ws))"

text \<open>The decimal text of an integer, as \<open>str(n)\<close> and an f-string field give it.\<close>

fun digits :: "nat \<Rightarrow> pystr" where
  "digits n = (if n < 10 then [48 + n] else digits (n div 10) @ [48 + n mod 10])"

declare digits.simps [simp del]

definition str_of_int :: "int \<Rightarrow> pystr" where
  "str_of_int i = (if i < 0 then 45 # digits (nat (- i)) else digits (nat i))"

text \<open>
  A value that is \<open>None\<close> or a string is a \<open>pystr option\<close>. An f-string field prints \<open>None\<close>
  as the four letters; the truth value of such a value is false for \<open>None\<close> and for the
  empty string.
\<close>

fun fstr :: "pystr option \<Rightarrow> pystr" where
  "fstr None = py ''None''"
| "fstr (Some s) = s"

fun truthy :: "pystr option \<Rightarrow> bool" where
  "truthy None = False"
| "truthy (Some s) = (s \<noteq> [])"

text \<open>
  A key of a JSON object is absent, present with \<open>null\<close>, or present with a value.
  \<open>d.get(k)\<close> gives \<open>None\<close> in the first two cases; \<open>d.get(k, default)\<close> gives the default
  only when the key is absent.
\<close>

datatype 'a json_field = Absent | Null | Val 'a

fun get :: "'a json_field \<Rightarrow> 'a option" where
  "get Absent = None"
| "get Null = None"
| "get (Val v) = Some v"

fun get_default :: "'a json_field \<Rightarrow> 'a \<Rightarrow> 'a option" where
  "get_default Absent d = Some d"
| "get_default Null d = None"
| "get_default (Val v) d = Some v"

text \<open>
  \<open>str.isprintable\<close> and the whitespace that \<open>str.strip\<close> removes, on the ASCII range: the
  text they are applied to has had every code point from 128 on removed (lemma
  \<open>escaped_text_ascii\<close> below). In ASCII the printable characters are the codes 32
  to 126, and the whitespace characters are the codes 9 to 13 and 28 to 32.
\<close>

definition isprintable :: "nat \<Rightarrow> bool" where
  "isprintable c = (32 \<le> c \<and> c < 127)"

definition isspace :: "nat \<Rightarrow> bool" where
  "isspace c = (c \<in> {9, 10, 11, 12, 13, 28, 29, 30, 31, 32})"

definition strip :: "pystr \<Rightarrow> pystr" where
  "strip s = rev (dropWhile isspace (rev (dropWhile isspace s)))"

text \<open>
  \<open>sorted(xs, key=f, reverse=True)\<close>: CPython reverses the list, sorts it stably in
  ascending key order and reverses the result, so that rows with equal keys keep their
  original order.
\<close>

definition sorted_reverse :: "('a \<Rightarrow> 'k::linorder) \<Rightarrow> 'a list \<Rightarrow> 'a list" where
  "sorted_reverse f xs = rev (sort_key f (rev xs))"

section \<open>The sanitizers\<close>

text \<open>
  \<open>for old, new in replacements.items(): text = text.replace(old, new)\<close>: a dict keeps
  insertion order, so the table is a list of pairs and the loop a left fold.
\<close>

definition replace_items :: "('a list \<times> 'a list) list \<Rightarrow> 'a list \<Rightarrow> 'a list" where
  "replace_items items text = fold (\<lambda>(old, new) t. replace old new t) items text"

subsection \<open>\<open>sanitize\<close> of routes/resume.py\<close>

definition sanitize_replacements :: "(pystr \<times> pystr) list" where
  "sanitize_replacements =
     [(py ''&'', cmd ''&''),
      (py ''%'', cmd ''%''),
      (py ''$'', cmd ''$''),
      (py ''#'', cmd ''#''),
      (py ''_'', cmd ''_''),
      (py ''{'', cmd ''{''),
      (py ''}'', cmd ''}''),
      (py ''~'', cmd ''textasciitilde{}''),
      (py ''^'', cmd ''textasciicircum{}''),
      ([92], cmd ''textbackslash{}''),
      (py ''<'', cmd ''textless{}''),
      (py ''>'', cmd ''textgreater{}''),
      (py ''|'', py ''$|$'')]"

definition sanitize :: "pystr \<Rightarrow> pystr" where
  "sanitize text =
     (if text = [] then []
      else replace_items sanitize_replacements (filter (\<lambda>c. c \<le> 127) text))"

text \<open>The same function on a value that may be \<open>None\<close>, which is falsy and gives \<open>""\<close>.\<close>

fun sanitize_value :: "pystr option \<Rightarrow> pystr" where
  "sanitize_value None = []"
| "sanitize_value (Some text) = sanitize text"

subsection \<open>\<open>ResumeWorkflow.escape_latex\<close> of agents/resume_agents.py\<close>

definition latex_special_chars :: "(pystr \<times> pystr) list" where
  "latex_special_chars =
     [(py ''&'', cmd ''&''),
      (py ''%'', cmd ''%''),
      (py ''$'', cmd ''$''),
      (py ''#'', cmd ''#''),
      (py ''_'', cmd ''_''),
      (py ''{'', cmd ''{''),
      (py ''}'', cmd ''}''),
      (py ''~'', cmd ''textasciitilde{}''),
      (py ''^'', cmd ''textasciicircum{}''),
      ([92], cmd ''textbackslash{}''),
      (py ''<'', cmd ''textless{}''),
      (py ''>'', cmd ''textgreater{}'')]"

definition escape_others :: "pystr \<Rightarrow> pystr" where
  "escape_others text =
     fold (\<lambda>(char, escaped_char) t. if char \<noteq> [92] then replace char escaped_char t else t)
       latex_special_chars text"

definition escape_latex :: "pystr \<Rightarrow> pystr" where
  "escape_latex text =
     (if text = [] then []
      else strip (filter isprintable
             (escape_others
               (replace [92] (cmd ''textbackslash{}'')
                 (filter (\<lambda>char. char < 128) text)))))"

section \<open>Extraction: \<open>fetch_github_data\<close> of routes/resume.py\<close>

text \<open>
  What the function reads from the network is its input here: the response to the user
  request, the response to the repository request and, with every repository object, the
  responses to its language and commit requests. A response is a status code and a decoded
  JSON body.

  A repository object carries the keys that the loop reads by subscript (\<open>name\<close>,
  \<open>stargazers_count\<close>, \<open>html_url\<close>, \<open>created_at\<close>, \<open>updated_at\<close>) as plain fields; the keys
  read through \<open>get\<close> may be absent (\<open>fork\<close>, \<open>forks_count\<close>), and \<open>description\<close> may also be
  \<open>null\<close>, as may the string keys of the user object.
\<close>

record 'a response =
  status_code :: nat
  json :: 'a

record user_data =
  name :: "pystr json_field"
  email :: "pystr json_field"
  location :: "pystr json_field"
  bio :: "pystr json_field"
  blog :: "pystr json_field"
  company :: "pystr json_field"
  followers :: "int option"
  following :: "int option"
  public_repos :: "int option"

record raw_repo =
  name :: pystr
  description :: "pystr json_field"
  fork :: "bool option"
  stargazers_count :: int
  forks_count :: "int option"
  created_at :: pystr
  updated_at :: pystr
  html_url :: pystr
  lang_response :: "pystr list response"
  commits_response :: "pystr list response"

record project_data =
  name :: pystr
  description :: pystr
  languages :: "pystr list"
  stars :: int
  commits :: nat
  url :: pystr

record exp_data =
  company :: pystr
  position :: pystr
  date :: pystr
  description :: pystr

record education_data =
  school :: pystr
  degree :: pystr
  date :: pystr
  gpa :: pystr

record final_data =
  name :: "pystr option"
  email :: "pystr option"
  phone :: pystr
  location :: "pystr option"
  bio :: "pystr option"
  skills :: "pystr list"
  projects :: "project_data list"
  experience :: "exp_data list"
  education :: "education_data list"
  profile_url :: pystr
  blog :: "pystr option"
  company :: "pystr option"
  followers :: int
  following :: int
  public_repos :: int

datatype error = HTTPException nat

text \<open>\<open>x.get(k, 0)\<close> on a key that holds an integer when present.\<close>

fun get_or :: "'a option \<Rightarrow> 'a \<Rightarrow> 'a" where
  "get_or None d = d"
| "get_or (Some v) d = v"

text \<open>The sort key of line 82: \<open>(stargazers_count, forks_count)\<close>, compared as a tuple.\<close>

definition sort_key_of :: "raw_repo \<Rightarrow> int \<times> int" where
  "sort_key_of x = (stargazers_count x, get_or (forks_count x) 0)"

text \<open>The local variables \<open>languages\<close>, \<open>commit_count\<close> and \<open>description\<close> of the loop body.\<close>

definition languages_of :: "raw_repo \<Rightarrow> pystr list" where
  "languages_of repo =
     (if status_code (lang_response repo) = 200 then json (lang_response repo) else [])"

definition commit_count_of :: "raw_repo \<Rightarrow> nat" where
  "commit_count_of repo =
     length (if status_code (commits_response repo) = 200 then json (commits_response repo)
             else [])"

definition description_of :: "raw_repo \<Rightarrow> pystr" where
  "description_of repo =
     fstr (get_default (raw_repo.description repo) (py ''A project'')) @ py ''. ''
     @ py ''Technologies: '' @ join (py '', '') (languages_of repo) @ py ''. ''
     @ py ''Made '' @ str_of_int (int (commit_count_of repo)) @ py '' commits. ''
     @ py ''Stars: '' @ str_of_int (stargazers_count repo)
     @ py '', Forks: '' @ str_of_int (get_or (forks_count repo) 0)"

definition project_data_of :: "raw_repo \<Rightarrow> project_data" where
  "project_data_of repo =
     \<lparr>project_data.name = raw_repo.name repo,
      project_data.description = description_of repo,
      project_data.languages = languages_of repo,
      project_data.stars = stargazers_count repo,
      project_data.commits = commit_count_of repo,
      project_data.url = html_url repo\<rparr>"

definition exp_data_of :: "raw_repo \<Rightarrow> exp_data" where
  "exp_data_of repo =
     \<lparr>exp_data.company =
        replace (py ''-'') (py '' '') (replace (py ''_'') (py '' '') (raw_repo.name repo)),
      exp_data.position = py ''Lead Developer'',
      exp_data.date = take 7 (created_at repo) @ py '' - '' @ take 7 (updated_at repo),
      exp_data.description = description_of repo\<rparr>"

text \<open>
  One turn of the loop of lines 82 to 127, on the three accumulators \<open>projects\<close>,
  \<open>experience\<close> and \<open>all_languages\<close> (\<open>projs\<close> and \<open>exps\<close> here, the full names being field
  names of the result).
\<close>

definition process_repo ::
  "raw_repo \<Rightarrow> project_data list \<times> exp_data list \<times> pystr set
     \<Rightarrow> project_data list \<times> exp_data list \<times> pystr set" where
  "process_repo repo acc =
     (case acc of (projs, exps, all_languages) \<Rightarrow>
        if fork repo \<noteq> Some True then
          (let all_languages' = all_languages \<union> set (languages_of repo);
               projs' =
                 (if length projs < 3
                     \<and> (stargazers_count repo > 0 \<or> commit_count_of repo > 10)
                  then projs @ [project_data_of repo] else projs);
               exps' =
                 (if stargazers_count repo > 0 \<or> commit_count_of repo > 10
                  then exps @ [exp_data_of repo] else exps)
           in (projs', exps', all_languages'))
        else acc)"

definition process_repos ::
  "raw_repo list \<Rightarrow> project_data list \<times> exp_data list \<times> pystr set" where
  "process_repos repos = fold process_repo (sorted_reverse sort_key_of repos) ([], [], {})"

definition education_of :: "user_data \<Rightarrow> education_data list" where
  "education_of user =
     (if truthy (get (user_data.bio user))
      then [\<lparr>education_data.school = py ''Computer Science Student'',
             education_data.degree = py ''Bachelor of Science in Computer Science'',
             education_data.date = py ''Present'',
             education_data.gpa = []\<rparr>]
      else [])"

definition final_data_of :: "pystr \<Rightarrow> user_data \<Rightarrow> raw_repo list \<Rightarrow> final_data" where
  "final_data_of github_url user repos =
     (let username = last (split 47 github_url) in
      case process_repos repos of (projs, exps, all_languages) \<Rightarrow>
        \<lparr>final_data.name = get_default (user_data.name user) username,
         final_data.email = get_default (user_data.email user) [],
         final_data.phone = [],
         final_data.location = get_default (user_data.location user) [],
         final_data.bio = get_default (user_data.bio user) [],
         final_data.skills = sorted_list_of_set all_languages,
         final_data.projects = projs,
         final_data.experience = exps,
         final_data.education = education_of user,
         final_data.profile_url = github_url,
         final_data.blog = get_default (user_data.blog user) [],
         final_data.company = get_default (user_data.company user) [],
         final_data.followers = get_or (user_data.followers user) 0,
         final_data.following = get_or (user_data.following user) 0,
         final_data.public_repos = get_or (user_data.public_repos user) 0\<rparr>)"

text \<open>
  The whole function: a status other than 200 on either request raises, and the handler
  turns every exception into \<open>HTTPException(status_code=500)\<close> (the detail text is not
  modelled).
\<close>

definition fetch_github_data ::
  "pystr \<Rightarrow> user_data response \<Rightarrow> raw_repo list response \<Rightarrow> error + final_data" where
  "fetch_github_data github_url user_response repos_response =
     (if status_code user_response \<noteq> 200 then Inl (HTTPException 500)
      else if status_code repos_response \<noteq> 200 then Inl (HTTPException 500)
      else Inr (final_data_of github_url (json user_response) (json repos_response)))"

section \<open>Formatting and rendering: \<open>generate_latex_resume\<close> of routes/resume.py\<close>

text \<open>
  The template text, which the source reads from a file, is an argument. The function
  builds one fragment per section and then replaces six literal blocks of the template.
\<close>

definition programming_languages_of :: "pystr list \<Rightarrow> pystr list" where
  "programming_languages_of skills_list =
     filter (\<lambda>lang. lang \<in> set [py ''Python'', py ''JavaScript'', py ''TypeScript'', py ''C++'',
                                 py ''HTML'', py ''CSS'', py ''Jupyter Notebook''])
       skills_list"

definition technologies_of :: "pystr list \<Rightarrow> pystr list" where
  "technologies_of skills_list =
     filter (\<lambda>lang. lang \<notin> set (programming_languages_of skills_list)) skills_list"

definition skills_section :: "final_data \<Rightarrow> pystr" where
  "skills_section github_data =
     cmd ''begin{itemize}[leftmargin=0.15in, label={}]\<newline>''
     @ py ''    '' @ cmd ''small{'' @ cmd ''item{\<newline>''
     @ py ''    '' @ cmd ''textbf{Programming Languages}: ''
     @ sanitize (join (py '', '') (programming_languages_of (skills github_data)))
     @ py '' '' @ [92, 92] @ py ''\<newline>''
     @ py ''    '' @ cmd ''textbf{Technologies}: ''
     @ sanitize (join (py '', '') (technologies_of (skills github_data)))
     @ py '' '' @ [92, 92] @ py ''\<newline>''
     @ py ''    }}\<newline>''
     @ cmd ''end{itemize}''"

definition experience_item :: "final_data \<Rightarrow> exp_data \<Rightarrow> pystr" where
  "experience_item github_data exp =
     cmd ''resumeSubheading\<newline>''
     @ py ''            {'' @ sanitize (exp_data.company exp)
     @ py ''}{'' @ sanitize_value (final_data.location github_data) @ py ''}\<newline>''
     @ py ''            {'' @ sanitize (exp_data.position exp)
     @ py ''}{'' @ sanitize (exp_data.date exp) @ py ''}\<newline>''
     @ py ''            '' @ cmd ''resumeItemListStart\<newline>''
     @ py ''            '' @ cmd ''resumeItem{'' @ sanitize (exp_data.description exp)
     @ py ''}\<newline>''
     @ py ''            '' @ cmd ''resumeItemListEnd''"

definition experience_section :: "final_data \<Rightarrow> pystr" where
  "experience_section github_data =
     cmd ''resumeSubHeadingListStart\<newline>''
     @ join (py ''\<newline>'')
         (map (experience_item github_data) (take 3 (experience github_data)))
     @ py ''\<newline>'' @ cmd ''resumeSubHeadingListEnd''"

definition project_item :: "project_data \<Rightarrow> pystr" where
  "project_item proj =
     cmd ''resumeSubheading\<newline>''
     @ py ''                {'' @ sanitize (project_data.name proj)
     @ py ''}{'' @ sanitize (py ''GitHub'') @ py ''}\<newline>''
     @ py ''                {Project}{''
     @ sanitize (join (py '', '') (project_data.languages proj)) @ py ''}\<newline>''
     @ py ''                '' @ cmd ''resumeItemListStart\<newline>''
     @ py ''                '' @ cmd ''resumeItem{'' @ sanitize (project_data.description proj)
     @ py ''}\<newline>''
     @ py ''                '' @ cmd ''resumeItemListEnd''"

definition projects_section :: "final_data \<Rightarrow> pystr" where
  "projects_section github_data =
     cmd ''resumeSubHeadingListStart\<newline>''
     @ join (py ''\<newline>'') (map project_item (take 2 (projects github_data)))
     @ py ''\<newline>'' @ cmd ''resumeSubHeadingListEnd''"

definition education_item :: "final_data \<Rightarrow> education_data \<Rightarrow> pystr" where
  "education_item github_data edu =
     cmd ''resumeSubheading{'' @ sanitize (education_data.school edu)
     @ py ''}{'' @ sanitize_value (final_data.location github_data)
     @ py ''}{'' @ sanitize (education_data.degree edu)
     @ py ''}{'' @ sanitize (education_data.date edu) @ py ''}''"

definition education_section :: "final_data \<Rightarrow> pystr" where
  "education_section github_data =
     cmd ''resumeSubHeadingListStart\<newline>''
     @ join (py ''\<newline>'') (map (education_item github_data) (education github_data))
     @ py ''\<newline>'' @ cmd ''resumeSubHeadingListEnd''"

definition contact_section :: "final_data \<Rightarrow> pystr" where
  "contact_section github_data =
     cmd ''begin{center}\<newline>''
     @ cmd ''small '' @ sanitize_value (final_data.email github_data)
     @ py '' $|$ '' @ cmd ''href{'' @ sanitize (profile_url github_data)
     @ py ''}{'' @ sanitize (py ''GitHub'')
     @ py ''} $|$ '' @ cmd ''href{'' @ sanitize_value (final_data.blog github_data)
     @ py ''}{'' @ sanitize (py ''Portfolio'')
     @ py ''}\<newline>''
     @ cmd ''end{center}''"

definition name_section :: "final_data \<Rightarrow> pystr" where
  "name_section github_data =
     cmd ''textbf{'' @ cmd ''Huge '' @ cmd ''scshape ''
     @ sanitize_value (final_data.name github_data) @ py ''}''"

text \<open>The six literal blocks of the template that are the keys of \<open>replacements\<close>.\<close>

definition name_block :: pystr where
  "name_block =
     cmd ''textbf{'' @ cmd ''Huge '' @ cmd ''scshape John Doe}''"

definition skills_block :: pystr where
  "skills_block =
     cmd ''begin{itemize}[leftmargin=0.15in, label={}]\<newline>''
     @ py ''    '' @ cmd ''small{'' @ cmd ''item{\<newline>''
     @ py ''    '' @ cmd ''textbf{Programming Languages}: JavaScript, TypeScript, HTML, Pyt''
     @ py ''hon, Jupyter Notebook, C++ '' @ [92, 92] @ py ''\<newline>''
     @ py ''    '' @ cmd ''textbf{Technologies}: Git, GitHub '' @ [92, 92]
     @ py ''\<newline>''
     @ py ''    }}\<newline>''
     @ cmd ''end{itemize}''"

definition experience_block :: pystr where
  "experience_block =
     cmd ''resumeSubHeadingListStart\<newline>''
     @ cmd ''resumeSubheading\<newline>''
     @ py ''            {Example Corp}{Location}\<newline>''
     @ py ''            {Software Engineer}{2020-Present}\<newline>''
     @ py ''            '' @ cmd ''resumeItemListStart\<newline>''
     @ py ''            '' @ cmd ''resumeItem{Full-stack development}\<newline>''
     @ py ''            '' @ cmd ''resumeItemListEnd\<newline>''
     @ cmd ''resumeSubHeadingListEnd''"

definition projects_block :: pystr where
  "projects_block =
     cmd ''resumeSubHeadingListStart\<newline>''
     @ cmd ''resumeSubheading\<newline>''
     @ py ''                {A-H-Website}{GitHub}\<newline>''
     @ py ''                {Project}{HTML}\<newline>''
     @ py ''                '' @ cmd ''resumeItemListStart\<newline>''
     @ py ''                ''
     @ cmd ''resumeItem{So, I have created this website using HTML, CSS and J''
     @ py ''S and this is the first website in which I use JS and learn so m''
     @ py ''uch about JS different functions . In this website, I give every''
     @ py '' latest news on every major fields .It is like a latest news cen''
     @ py ''ter in which I am updating information everyday so user get late''
     @ py ''st news}\<newline>''
     @ py ''                '' @ cmd ''resumeItemListEnd\<newline>''
     @ cmd ''resumeSubheading\<newline>''
     @ py ''                {Advent-Of-Code-2024-Competition}{GitHub}\<newline>''
     @ py ''                {Project}{JavaScript}\<newline>''
     @ py ''                '' @ cmd ''resumeItemListStart\<newline>''
     @ py ''                ''
     @ cmd ''resumeItem{Welcome to my Advent of Code 2024 repository! ''
     @ [240, 376, 381, 8240] @ py '' Every day, I'' @ [39]
     @ py ''ll be solving a new puzzle and posting my solution here. This ev''
     @ py ''ent is a fun and challenging way to improve problem-solving skil''
     @ py ''ls and learn new concepts. I'' @ [39]
     @ py ''m documenting my journey to share with anyone who might be worki''
     @ py ''ng through the same puzzles or wants to follow along!'' @ [240, 376, 338, 376]
     @ py ''}\<newline>''
     @ py ''                '' @ cmd ''resumeItemListEnd\<newline>''
     @ cmd ''resumeSubHeadingListEnd''"

definition education_block :: pystr where
  "education_block =
     cmd ''resumeSubHeadingListStart\<newline>''
     @ cmd ''resumeSubheading{University Name}{City, Country}{Degree}{2018-20''
     @ py ''22}\<newline>''
     @ cmd ''resumeSubHeadingListEnd''"

definition contact_block :: pystr where
  "contact_block =
     cmd ''begin{center}\<newline>''
     @ cmd ''small john@example.com $|$ ''
     @ cmd ''href{https://github.com/HassanMehmood413}{GitHub} $|$ ''
     @ cmd ''href{https://www.linkedin.com/in/hassan-mehmood-01a3a9247/}{Link''
     @ py ''edIn}\<newline>''
     @ cmd ''end{center}''"

definition replacements :: "final_data \<Rightarrow> (pystr \<times> pystr) list" where
  "replacements github_data =
     [(name_block, name_section github_data),
      (skills_block, skills_section github_data),
      (experience_block, experience_section github_data),
      (projects_block, projects_section github_data),
      (education_block, education_section github_data),
      (contact_block, contact_section github_data)]"

definition generate_latex_resume :: "pystr \<Rightarrow> final_data \<Rightarrow> pystr" where
  "generate_latex_resume template github_data =
     replace_items (replacements github_data) template"

section \<open>Names for the conditions of the loop\<close>

text \<open>
  The loop body is guarded by \<open>not repo.get('fork')\<close>, and both appends by
  \<open>repo['stargazers_count'] > 0 or commit_count > 10\<close>. The two conditions are named so
  that the theorems can speak of the repositories that pass them.
\<close>

definition not_fork :: "raw_repo \<Rightarrow> bool" where
  "not_fork repo = (fork repo \<noteq> Some True)"

definition significant :: "raw_repo \<Rightarrow> bool" where
  "significant repo = (stargazers_count repo > 0 \<or> commit_count_of repo > 10)"


section \<open>Auxiliary notions for \<open>escape_latex\<close>\<close>

text \<open>
  \<open>escape_char c\<close> is what the two replacement steps of \<open>escape_latex\<close> make of the single
  character \<open>c\<close>. \<open>guarded p t\<close> says that every opening brace of \<open>t\<close> stands right after a
  backslash or after one of the letters \<open>e\<close>, \<open>m\<close>, \<open>r\<close>, \<open>s\<close> (the last letters of the
  command names that the table writes with a pair of braces), \<open>p\<close> being the character
  before \<open>t\<close>.
\<close>

definition escape_char :: "nat \<Rightarrow> pystr" where
  "escape_char c = escape_others (replace [92] (cmd ''textbackslash{}'') [c])"

fun guarded :: "nat \<Rightarrow> pystr \<Rightarrow> bool" where
  "guarded p [] = True"
| "guarded p (c # cs) = ((c = 123 \<longrightarrow> p \<in> {92, 101, 109, 114, 115}) \<and> guarded c cs)"

section \<open>Substitution against the original template\<close>

text \<open>
  The specification describes the renderer as substituting every pair independently into
  the original template, never into text that a substitution has produced.
  \<open>substitute_independently\<close> is that description, written from the specification and
  not from the source: the template is read once from left to right; where a block of
  the table begins, its fragment is written and reading goes on after the block; any
  other character is copied. A fragment is written and never read again. The function of
  the source is \<open>generate_latex_resume\<close> above; the two are compared in the claims.
\<close>

fun substitute_independently :: "('a list \<times> 'a list) list \<Rightarrow> 'a list \<Rightarrow> 'a list" where
  "substitute_independently pairs [] = []"
| "substitute_independently pairs (c # cs) =
     (case find (\<lambda>(block, fragment). block \<noteq> [] \<and> prefix block (c # cs)) pairs of
        None \<Rightarrow> c # substitute_independently pairs cs
      | Some (block, fragment) \<Rightarrow>
          fragment @ substitute_independently pairs (drop (length block - 1) cs))"

section \<open>Auxiliary notions for the replacement table\<close>

text \<open>
  \<open>comparable u v\<close>: one of the two strings is a prefix of the other. \<open>starts_within k s\<close>:
  at some position of \<open>s\<close> the rest of \<open>s\<close> is comparable with \<open>k\<close>, so that an occurrence of
  \<open>k\<close> could begin inside \<open>s\<close>, whatever follows \<open>s\<close>. \<open>independent_pairs\<close> is the condition
  under which a chain of replacements cannot meet its own output: the blocks are distinct
  and not empty, no fragment is empty, no block begins inside another block or inside the
  fragment of another block, and no fragment begins inside another block past its first
  character.
\<close>

definition comparable :: "'a list \<Rightarrow> 'a list \<Rightarrow> bool" where
  "comparable u v = (prefix u v \<or> prefix v u)"

fun starts_within :: "'a list \<Rightarrow> 'a list \<Rightarrow> bool" where
  "starts_within k [] = False"
| "starts_within k (c # cs) = (comparable k (c # cs) \<or> starts_within k cs)"

definition independent_pairs :: "('a list \<times> 'a list) list \<Rightarrow> bool" where
  "independent_pairs ps =
     (distinct (map fst ps)
      \<and> (\<forall>(k, f) \<in> set ps. k \<noteq> [] \<and> f \<noteq> []
           \<and> (\<forall>(k', f') \<in> set ps. k' \<noteq> k \<longrightarrow>
                 \<not> starts_within k' k \<and> \<not> starts_within k' f \<and> \<not> starts_within f (tl k'))))"

text \<open>
  What \<open>sanitize\<close> makes of a single character, and a short beginning of each of the six
  blocks (\<open>list_start\<close> is the line that opens the experience, projects and education
  blocks and their fragments alike).
\<close>

definition sanitize_char :: "nat \<Rightarrow> pystr" where
  "sanitize_char c = replace_items sanitize_replacements [c]"

definition name_mark :: pystr where
  "name_mark = cmd ''textbf{'' @ [92]"

definition skills_mark :: pystr where
  "skills_mark = cmd ''begin{i''"

definition list_start :: pystr where
  "list_start = cmd ''resumeSubHeadingListStart\<newline>''"

definition experience_mark :: pystr where
  "experience_mark = list_start @ cmd ''resumeSubheading\<newline>'' @ py ''            {''"

definition projects_mark :: pystr where
  "projects_mark = list_start @ cmd ''resumeSubheading\<newline>'' @ py ''             ''"

definition education_mark :: pystr where
  "education_mark = list_start @ cmd ''resumeSubheading{''"

definition contact_mark :: pystr where
  "contact_mark = cmd ''begin{c''"

section \<open>Example inputs\<close>

text \<open>
  Concrete inputs at which the theorems below are evaluated: a non-fork repository with
  one language and fifteen commits, parametrised by its name, stars and forks; a user
  with a bio and an empty blog; and four such repositories, each with at least one star.
\<close>

definition example_repo :: "pystr \<Rightarrow> int \<Rightarrow> int \<Rightarrow> raw_repo" where
  "example_repo n s f =
     \<lparr>raw_repo.name = n,
      raw_repo.description = Val (py ''Demo''),
      raw_repo.fork = Some False,
      raw_repo.stargazers_count = s,
      raw_repo.forks_count = Some f,
      raw_repo.created_at = py ''2023-01-15T10:00:00Z'',
      raw_repo.updated_at = py ''2024-03-20T12:30:00Z'',
      raw_repo.html_url = py ''https://github.com/octo/'' @ n,
      raw_repo.lang_response = \<lparr>status_code = 200, json = [py ''Python'']\<rparr>,
      raw_repo.commits_response = \<lparr>status_code = 200, json = replicate 15 (py ''c'')\<rparr>\<rparr>"

definition example_user :: user_data where
  "example_user =
     \<lparr>user_data.name = Val (py ''Octo Cat''),
      user_data.email = Null,
      user_data.location = Val (py ''Lahore''),
      user_data.bio = Val (py ''Student''),
      user_data.blog = Val [],
      user_data.company = Null,
      user_data.followers = Some 3,
      user_data.following = Some 4,
      user_data.public_repos = Some 5\<rparr>"

definition example_url :: pystr where
  "example_url = py ''https://github.com/octo''"

definition four_repos :: "raw_repo list" where
  "four_repos = [example_repo (py ''A'') 5 1, example_repo (py ''B'') 5 3,
                 example_repo (py ''C'') 2 9, example_repo (py ''D'') 1 0]"

section \<open>Facts about the string operations\<close>

lemma replace_single:
  "replace [k] new s = concat (map (\<lambda>c. if c = k then new else [c]) s)"
  by (induction s) (auto simp: replace_def)

lemma set_replace_from: "set (replace_from old new s) \<subseteq> set new \<union> set s"
proof (induction old new s rule: replace_from.induct)
  case (1 old new)
  then show ?case by simp
next
  case (2 old new c cs)
  show ?case
  proof (cases "prefix old (c # cs)")
    case True
    have "set (drop (length old - 1) cs) \<subseteq> set cs" by (rule set_drop_subset)
    with True 2 show ?thesis by auto
  next
    case False
    with 2 show ?thesis by auto
  qed
qed

lemma set_replace: "set (replace old new s) \<subseteq> set new \<union> set s"
  by (auto simp: replace_def dest: subsetD [OF set_replace_from])

lemma occurs_in_iff: "occurs_in sub s \<longleftrightarrow> (\<exists>x y. s = x @ sub @ y)"
proof (induction s)
  case Nil
  then show ?case by auto
next
  case (Cons c cs)
  show ?case
  proof
    assume "occurs_in sub (c # cs)"
    then consider "prefix sub (c # cs)" | "occurs_in sub cs" by auto
    then show "\<exists>x y. c # cs = x @ sub @ y"
    proof cases
      case 1
      then obtain y where "c # cs = sub @ y" by (auto simp: prefix_def)
      then have "c # cs = [] @ sub @ y" by simp
      then show ?thesis by blast
    next
      case 2
      with Cons obtain x y where "cs = x @ sub @ y" by auto
      then have "c # cs = (c # x) @ sub @ y" by simp
      then show ?thesis by blast
    qed
  next
    assume "\<exists>x y. c # cs = x @ sub @ y"
    then obtain x y where xy: "c # cs = x @ sub @ y" by blast
    show "occurs_in sub (c # cs)"
    proof (cases x)
      case Nil
      with xy have "prefix sub (c # cs)" by (auto simp: prefix_def)
      then show ?thesis by simp
    next
      case (Cons a x')
      with xy have "cs = x' @ sub @ y" by simp
      with Cons.IH have "occurs_in sub cs" by blast
      then show ?thesis by simp
    qed
  qed
qed

lemma occurs_in_middle: "occurs_in sub (x @ sub @ y)"
  by (auto simp: occurs_in_iff)

lemma replace_from_absent:
  "\<not> occurs_in old s \<Longrightarrow> replace_from old new s = s"
  by (induction s) auto

lemma replace_absent: "\<not> occurs_in old s \<Longrightarrow> replace old new s = s"
  by (cases "old = []") (auto simp: replace_def replace_from_absent occurs_in_iff)

lemma replace_items_Nil [simp]: "replace_items [] s = s"
  by (simp add: replace_items_def)

lemma replace_items_Cons [simp]:
  "replace_items ((old, new) # items) s = replace_items items (replace old new s)"
  by (simp add: replace_items_def)

lemma replace_items_append:
  "replace_items (items @ rest) s = replace_items rest (replace_items items s)"
  by (simp add: replace_items_def)

lemma set_replace_items:
  "set (replace_items items s) \<subseteq> set s \<union> \<Union> (set (map (\<lambda>(old, new). set new) items))"
proof (induction items arbitrary: s)
  case Nil
  then show ?case by simp
next
  case (Cons a items)
  obtain old new where a: "a = (old, new)" by (cases a)
  have "set (replace_items items (replace old new s))
      \<subseteq> set (replace old new s) \<union> \<Union> (set (map (\<lambda>(old, new). set new) items))"
    by (rule Cons.IH)
  moreover have "set (replace old new s) \<subseteq> set new \<union> set s"
    by (rule set_replace)
  ultimately show ?case unfolding a by auto
qed

lemma replace_items_absent:
  "list_all (\<lambda>(old, new). \<not> occurs_in old s) items \<Longrightarrow> replace_items items s = s"
  by (induction items) (auto simp: replace_absent)

lemma set_strip: "set (strip u) \<subseteq> set u"
proof -
  have "set (strip u) \<subseteq> set (rev (dropWhile isspace u))"
    unfolding strip_def set_rev by (auto dest: set_dropWhileD)
  also have "\<dots> \<subseteq> set u" by (auto dest: set_dropWhileD)
  finally show ?thesis .
qed

lemma strip_no_leading: "strip s = c # t \<Longrightarrow> \<not> isspace c"
proof -
  assume a: "strip s = c # t"
  define u where "u = dropWhile isspace s"
  have "rev u = takeWhile isspace (rev u) @ dropWhile isspace (rev u)" by simp
  then have "u = rev (dropWhile isspace (rev u)) @ rev (takeWhile isspace (rev u))"
    by (metis rev_append rev_rev_ident)
  with a have "u = (c # t) @ rev (takeWhile isspace (rev u))"
    by (simp add: strip_def u_def)
  then obtain w where "u = c # w" by (metis append_Cons)
  then have "dropWhile isspace s = c # w" by (simp add: u_def)
  then show ?thesis using hd_dropWhile [of isspace s] by auto
qed

lemma strip_no_trailing: "strip s = t @ [c] \<Longrightarrow> \<not> isspace c"
proof -
  assume a: "strip s = t @ [c]"
  then have "dropWhile isspace (rev (dropWhile isspace s)) = c # rev t"
    by (simp add: strip_def rev_swap)
  then show ?thesis
    using hd_dropWhile [of isspace "rev (dropWhile isspace s)"] by auto
qed

lemma dropWhile_keep:
  "m \<noteq> [] \<Longrightarrow> \<not> P (hd m) \<Longrightarrow> dropWhile P (x @ m @ y) = dropWhile P x @ m @ y"
  by (cases m) (auto simp: dropWhile_append)

lemma strip_keep:
  assumes "m \<noteq> []" "\<not> isspace (hd m)" "\<not> isspace (last m)"
  shows "strip (x @ m @ y) = dropWhile isspace x @ m @ rev (dropWhile isspace (rev y))"
proof -
  have 1: "dropWhile isspace (x @ m @ y) = dropWhile isspace x @ m @ y"
    using assms by (simp add: dropWhile_keep)
  have "rev (dropWhile isspace x @ m @ y) = rev y @ rev m @ rev (dropWhile isspace x)"
    by simp
  moreover have "rev m \<noteq> []" "\<not> isspace (hd (rev m))"
    using assms by (simp_all add: hd_rev)
  ultimately have "dropWhile isspace (rev (dropWhile isspace x @ m @ y))
      = dropWhile isspace (rev y) @ rev m @ rev (dropWhile isspace x)"
    by (simp add: dropWhile_keep)
  with 1 show ?thesis by (simp add: strip_def)
qed

lemma strip_prefix: "\<exists>r. dropWhile isspace u = strip u @ r"
proof -
  define v where "v = dropWhile isspace u"
  have "rev v = takeWhile isspace (rev v) @ dropWhile isspace (rev v)" by simp
  then have "v = rev (dropWhile isspace (rev v)) @ rev (takeWhile isspace (rev v))"
    by (metis rev_append rev_rev_ident)
  then show ?thesis unfolding strip_def v_def by blast
qed

section \<open>Facts about \<open>sanitize\<close>\<close>

lemma sanitize_replacements_ascii:
  "\<Union> (set (map (\<lambda>(old, new). set new) sanitize_replacements)) \<subseteq> {c. c < 128}"
  by (simp add: sanitize_replacements_def py_def cmd_def)

lemma sanitize_ascii: "set (sanitize s) \<subseteq> {c. c < 128}"
proof (cases "s = []")
  case True
  then show ?thesis by (simp add: sanitize_def)
next
  case False
  have "set (filter (\<lambda>c. c \<le> 127) s) \<subseteq> {c. c < 128}" by auto
  with set_replace_items [of sanitize_replacements "filter (\<lambda>c. c \<le> 127) s"]
    sanitize_replacements_ascii
  have "set (replace_items sanitize_replacements (filter (\<lambda>c. c \<le> 127) s)) \<subseteq> {c. c < 128}"
    by blast
  with False show ?thesis by (simp add: sanitize_def)
qed

lemma sanitize_labels:
  "sanitize (py ''GitHub'') = py ''GitHub''" "sanitize (py ''Portfolio'') = py ''Portfolio''"
  by (simp_all add: sanitize_def sanitize_replacements_def replace_single py_def cmd_def)

section \<open>Facts about \<open>escape_latex\<close>\<close>

lemma escape_others_append: "escape_others (x @ y) = escape_others x @ escape_others y"
  by (simp add: escape_others_def latex_special_chars_def py_def cmd_def replace_single)

lemma escape_others_backslash:
  "escape_others (cmd ''textbackslash{}'') = cmd ''textbackslash'' @ cmd ''{'' @ cmd ''}''"
  by (simp add: escape_others_def latex_special_chars_def py_def cmd_def replace_single)

lemma escape_latex_backslash_general:
  assumes "92 \<in> set s"
  shows "occurs_in (cmd ''textbackslash'' @ cmd ''{'' @ cmd ''}'') (escape_latex s)"
proof -
  define m where "m = cmd ''textbackslash'' @ cmd ''{'' @ cmd ''}''"
  from assms have ne: "s \<noteq> []" by auto
  from assms have "92 \<in> set (filter (\<lambda>char. char < 128) s)" by simp
  then obtain a b where ab: "filter (\<lambda>char. char < 128) s = a @ 92 # b"
    by (auto dest: split_list)
  have "replace [92] (cmd ''textbackslash{}'') (a @ 92 # b)
      = replace [92] (cmd ''textbackslash{}'') a @ cmd ''textbackslash{}''
        @ replace [92] (cmd ''textbackslash{}'') b"
    by (simp add: replace_single)
  then obtain u v where
    "escape_others (replace [92] (cmd ''textbackslash{}'') (a @ 92 # b)) = u @ m @ v"
    by (simp add: escape_others_append escape_others_backslash m_def)
  moreover have "filter isprintable m = m"
    by (simp add: m_def py_def cmd_def isprintable_def)
  ultimately have "filter isprintable
      (escape_others (replace [92] (cmd ''textbackslash{}'') (a @ 92 # b)))
      = filter isprintable u @ m @ filter isprintable v"
    by simp
  moreover have "m \<noteq> []" "\<not> isspace (hd m)" "\<not> isspace (last m)"
    by (simp_all add: m_def py_def cmd_def isspace_def)
  ultimately have "strip (filter isprintable
      (escape_others (replace [92] (cmd ''textbackslash{}'') (a @ 92 # b))))
      = dropWhile isspace (filter isprintable u) @ m
        @ rev (dropWhile isspace (rev (filter isprintable v)))"
    by (simp add: strip_keep)
  with ne ab have "\<exists>x y. escape_latex s = x @ m @ y"
    by (simp only: escape_latex_def if_False) blast
  then show ?thesis by (simp only: occurs_in_iff m_def)
qed

lemma escape_latex_printable: "set (escape_latex s) \<subseteq> {c. isprintable c}"
proof (cases "s = []")
  case True
  then show ?thesis by (simp add: escape_latex_def)
next
  case False
  then show ?thesis
    using set_strip by (fastforce simp add: escape_latex_def)
qed

lemma escape_latex_stripped:
  "\<not> (\<exists>c t. isspace c \<and> (escape_latex s = c # t \<or> escape_latex s = t @ [c]))"
proof (cases "s = []")
  case True
  then show ?thesis by (simp add: escape_latex_def)
next
  case False
  then show ?thesis
    by (auto simp add: escape_latex_def dest: strip_no_leading strip_no_trailing)
qed

text \<open>
  No output of \<open>escape_latex\<close> has an opening brace right after the letter \<open>h\<close>: the
  invariant \<open>guarded\<close> holds of what the replacements make of each character, and the
  filter and the strip keep it.
\<close>

lemma guarded_append: "guarded p (x @ y) = (guarded p x \<and> guarded (last (p # x)) y)"
  by (induction x arbitrary: p) auto

lemma guarded_weaken:
  "guarded c cs \<Longrightarrow> c \<notin> {92, 101, 109, 114, 115} \<Longrightarrow> guarded p cs"
  by (cases cs) auto

lemma guarded_filter:
  "guarded p t \<Longrightarrow> guarded p (filter isprintable t)"
proof (induction t arbitrary: p)
  case Nil
  then show ?case by simp
next
  case (Cons c cs)
  show ?case
  proof (cases "isprintable c")
    case True
    with Cons show ?thesis by simp
  next
    case False
    then have "c \<notin> {92, 101, 109, 114, 115}" by (auto simp: isprintable_def)
    with Cons.prems have "guarded p cs" by (auto intro: guarded_weaken)
    with Cons.IH False show ?thesis by simp
  qed
qed

lemma guarded_dropWhile:
  "guarded p t \<Longrightarrow> guarded p (dropWhile isspace t)"
proof (induction t arbitrary: p)
  case Nil
  then show ?case by simp
next
  case (Cons c cs)
  show ?case
  proof (cases "isspace c")
    case False
    with Cons.prems show ?thesis by simp
  next
    case True
    then have "c \<notin> {92, 101, 109, 114, 115}" by (auto simp: isspace_def)
    with Cons.prems have "guarded p cs" by (auto intro: guarded_weaken)
    with Cons.IH True show ?thesis by simp
  qed
qed

lemma guarded_strip: "guarded p t \<Longrightarrow> guarded p (strip t)"
proof -
  assume "guarded p t"
  then have "guarded p (dropWhile isspace t)" by (rule guarded_dropWhile)
  moreover obtain r where "dropWhile isspace t = strip t @ r" using strip_prefix by blast
  ultimately show ?thesis by (simp add: guarded_append)
qed

lemma escape_char_special:
  "escape_char 92 = cmd ''textbackslash'' @ cmd ''{'' @ cmd ''}''"
  "escape_char 38 = cmd ''&''"
  "escape_char 37 = cmd ''%''"
  "escape_char 36 = cmd ''$''"
  "escape_char 35 = cmd ''#''"
  "escape_char 95 = cmd ''_''"
  "escape_char 123 = cmd ''{''"
  "escape_char 125 = cmd ''}''"
  "escape_char 126 = cmd ''textasciitilde{}''"
  "escape_char 94 = cmd ''textasciicircum{}''"
  "escape_char 60 = cmd ''textless{}''"
  "escape_char 62 = cmd ''textgreater{}''"
  by (simp_all add: escape_char_def escape_others_def latex_special_chars_def replace_single
      py_def cmd_def)

lemma escape_char_other:
  assumes "c \<notin> {92, 38, 37, 36, 35, 95, 123, 125, 126, 94, 60, 62}"
  shows "escape_char c = [c]"
  using assms
  by (simp add: escape_char_def escape_others_def latex_special_chars_def replace_single
      py_def cmd_def)

lemma guarded_escape_char: "guarded p (escape_char c)"
proof (cases "c \<in> {92, 38, 37, 36, 35, 95, 123, 125, 126, 94, 60, 62}")
  case True
  then consider "c = 92" | "c = 38" | "c = 37" | "c = 36" | "c = 35" | "c = 95" | "c = 123"
    | "c = 125" | "c = 126" | "c = 94" | "c = 60" | "c = 62"
    by auto
  then show ?thesis
    by cases (simp_all add: escape_char_special, simp_all add: py_def cmd_def)
next
  case False
  then have "escape_char c = [c]" by (rule escape_char_other)
  with False show ?thesis by simp
qed

lemma escape_Cons:
  "escape_others (replace [92] (cmd ''textbackslash{}'') (c # cs))
     = escape_char c @ escape_others (replace [92] (cmd ''textbackslash{}'') cs)"
proof -
  have "replace [92] (cmd ''textbackslash{}'') (c # cs)
      = replace [92] (cmd ''textbackslash{}'') [c] @ replace [92] (cmd ''textbackslash{}'') cs"
    by (simp add: replace_single)
  then show ?thesis by (simp add: escape_others_append escape_char_def)
qed

lemma guarded_escape:
  "guarded p (escape_others (replace [92] (cmd ''textbackslash{}'') t))"
proof (induction t arbitrary: p)
  case Nil
  show ?case
    by (simp add: escape_others_def latex_special_chars_def replace_single py_def cmd_def)
next
  case (Cons c cs)
  show ?case
    unfolding escape_Cons guarded_append using guarded_escape_char Cons.IH by blast
qed

lemma guarded_escape_latex: "guarded p (escape_latex s)"
  by (simp add: escape_latex_def guarded_strip guarded_filter guarded_escape)

text \<open>
  The text that reaches \<open>isprintable\<close> and \<open>strip\<close> in \<open>escape_latex\<close> is ASCII only, which
  is the range on which the two are defined above.
\<close>

lemma set_escape_char: "c < 128 \<Longrightarrow> set (escape_char c) \<subseteq> {c. c < 128}"
proof (cases "c \<in> {92, 38, 37, 36, 35, 95, 123, 125, 126, 94, 60, 62}")
  case True
  then consider "c = 92" | "c = 38" | "c = 37" | "c = 36" | "c = 35" | "c = 95" | "c = 123"
    | "c = 125" | "c = 126" | "c = 94" | "c = 60" | "c = 62"
    by auto
  then show ?thesis
    by cases (simp_all add: escape_char_special, simp_all add: py_def cmd_def)
next
  case False
  assume "c < 128"
  with False show ?thesis by (simp add: escape_char_other)
qed

lemma escaped_text_ascii:
  "set (escape_others (replace [92] (cmd ''textbackslash{}'') (filter (\<lambda>char. char < 128) s)))
     \<subseteq> {c. c < 128}"
proof (induction s)
  case Nil
  show ?case
    by (simp add: escape_others_def latex_special_chars_def replace_single py_def cmd_def)
next
  case (Cons c cs)
  show ?case
  proof (cases "c < 128")
    case True
    with Cons set_escape_char [of c] show ?thesis by (simp add: escape_Cons)
  next
    case False
    with Cons show ?thesis by simp
  qed
qed

lemma guarded_no_bare_backslash_text:
  "guarded p t \<Longrightarrow> \<not> occurs_in (cmd ''textbackslash{}'') t"
proof
  assume g: "guarded p t" and "occurs_in (cmd ''textbackslash{}'') t"
  then obtain x y where "t = x @ cmd ''textbackslash{}'' @ y" by (auto simp: occurs_in_iff)
  with g have "guarded (last (p # x)) (cmd ''textbackslash{}'')"
    by (simp add: guarded_append)
  then show False by (simp add: py_def cmd_def)
qed

lemma escape_latex_never_plain: "\<not> occurs_in (cmd ''textbackslash{}'') (escape_latex s)"
  using guarded_escape_latex by (rule guarded_no_bare_backslash_text)

text \<open>
  Both sanitizers drop every character with code point 128 or more; \<open>escape_latex\<close> also
  returns printable characters only, with no whitespace at either end.
\<close>

lemma sanitizers_strip_non_ascii:
  "list_all (\<lambda>c. c < 128) (sanitize s)
   \<and> sanitize (py ''caf'' @ [233, 127881]) = py ''caf''
   \<and> list_all (\<lambda>c. c < 128) (escape_latex s)
   \<and> list_all isprintable (escape_latex s)
   \<and> \<not> (\<exists>c t. isspace c \<and> (escape_latex s = c # t \<or> escape_latex s = t @ [c]))
   \<and> escape_latex (py ''caf'' @ [233, 127881]) = py ''caf''"
proof -
  have "list_all (\<lambda>c. c < 128) (sanitize s)"
    using sanitize_ascii [of s] by (auto simp: list_all_iff)
  moreover have "sanitize (py ''caf'' @ [233, 127881]) = py ''caf''"
    by (simp add: sanitize_def sanitize_replacements_def replace_single py_def cmd_def)
  moreover have p: "list_all isprintable (escape_latex s)"
    using escape_latex_printable [of s] by (auto simp: list_all_iff)
  moreover from p have "list_all (\<lambda>c. c < 128) (escape_latex s)"
    by (auto simp: list_all_iff isprintable_def)
  moreover have "escape_latex (py ''caf'' @ [233, 127881]) = py ''caf''"
    by (simp add: escape_latex_def escape_others_def latex_special_chars_def replace_single
        isprintable_def strip_def isspace_def py_def cmd_def)
  ultimately show ?thesis using escape_latex_stripped [of s] by blast
qed

section \<open>Facts about the loop and the sort\<close>

lemma fold_process_repo:
  "length p \<le> 3 \<Longrightarrow>
   fold process_repo xs (p, e, l) =
     (take 3 (p @ map project_data_of (filter (\<lambda>r. not_fork r \<and> significant r) xs)),
      e @ map exp_data_of (filter (\<lambda>r. not_fork r \<and> significant r) xs),
      l \<union> \<Union> (set (map (\<lambda>r. set (languages_of r)) (filter not_fork xs))))"
proof (induction xs arbitrary: p e l)
  case Nil
  then show ?case by simp
next
  case (Cons x xs)
  show ?case
  proof (cases "not_fork x")
    case False
    then have "process_repo x (p, e, l) = (p, e, l)"
      by (simp add: process_repo_def not_fork_def)
    with False Cons show ?thesis by simp
  next
    case nf: True
    show ?thesis
    proof (cases "significant x")
      case False
      with nf have "process_repo x (p, e, l) = (p, e, l \<union> set (languages_of x))"
        by (simp add: process_repo_def not_fork_def significant_def)
      with nf False Cons show ?thesis by (simp add: Un_assoc)
    next
      case sg: True
      show ?thesis
      proof (cases "length p < 3")
        case True
        with nf sg have "process_repo x (p, e, l) =
            (p @ [project_data_of x], e @ [exp_data_of x], l \<union> set (languages_of x))"
          by (auto simp add: process_repo_def not_fork_def significant_def Let_def)
        moreover from True have "length (p @ [project_data_of x]) \<le> 3" by simp
        moreover from True have "3 - length p = Suc (2 - length p)" by simp
        ultimately show ?thesis using nf sg Cons.IH by (simp add: Un_assoc)
      next
        case False
        with nf sg have "process_repo x (p, e, l) =
            (p, e @ [exp_data_of x], l \<union> set (languages_of x))"
          by (auto simp add: process_repo_def not_fork_def significant_def Let_def)
        moreover from False Cons.prems have "length p = 3" by simp
        ultimately show ?thesis using nf sg Cons.IH Cons.prems by (simp add: Un_assoc)
      qed
    qed
  qed
qed

lemma set_sorted_reverse [simp]: "set (sorted_reverse f xs) = set xs"
  by (simp add: sorted_reverse_def)

lemma length_sorted_reverse [simp]: "length (sorted_reverse f xs) = length xs"
  by (simp add: sorted_reverse_def)

lemma mset_sorted_reverse: "mset (sorted_reverse f xs) = mset xs"
  by (simp add: sorted_reverse_def)

lemma filter_sorted_reverse: "filter P (sorted_reverse f xs) = sorted_reverse f (filter P xs)"
proof -
  have "filter P (rev (sort_key f (rev xs))) = rev (filter P (sort_key f (rev xs)))"
    by (simp add: rev_filter)
  also have "\<dots> = rev (sort_key f (filter P (rev xs)))"
    by (simp only: filter_sort)
  also have "\<dots> = rev (sort_key f (rev (filter P xs)))"
    by (simp add: rev_filter)
  finally show ?thesis by (simp add: sorted_reverse_def)
qed

lemma sorted_reverse_desc:
  "sorted_wrt (\<lambda>a b. f a \<ge> f b) (sorted_reverse f xs)"
proof -
  have "sorted (map f (sort_key f (rev xs)))" by simp
  then have "sorted_wrt (\<lambda>a b. f a \<le> f b) (sort_key f (rev xs))"
    by (simp add: sorted_map)
  then show ?thesis
    by (simp add: sorted_reverse_def sorted_wrt_rev)
qed

lemma sorted_reverse_stable:
  "filter (\<lambda>y. f y = k) (sorted_reverse f xs) = filter (\<lambda>y. f y = k) xs"
  by (simp add: sorted_reverse_def rev_filter [symmetric] sort_key_stable)

lemma process_repos_eq:
  "process_repos repos =
     (take 3 (map project_data_of
        (filter (\<lambda>r. not_fork r \<and> significant r) (sorted_reverse sort_key_of repos))),
      map exp_data_of
        (filter (\<lambda>r. not_fork r \<and> significant r) (sorted_reverse sort_key_of repos)),
      \<Union> (set (map (\<lambda>r. set (languages_of r)) (filter not_fork repos))))"
  by (simp add: process_repos_def fold_process_repo filter_sorted_reverse)

lemma final_data_of_projects:
  "projects (final_data_of github_url user repos) =
     take 3 (map project_data_of
       (filter (\<lambda>r. not_fork r \<and> significant r) (sorted_reverse sort_key_of repos)))"
  by (simp add: final_data_of_def process_repos_eq)

lemma final_data_of_experience:
  "experience (final_data_of github_url user repos) =
     map exp_data_of
       (filter (\<lambda>r. not_fork r \<and> significant r) (sorted_reverse sort_key_of repos))"
  by (simp add: final_data_of_def process_repos_eq)

lemma final_data_of_skills:
  "skills (final_data_of github_url user repos) =
     sorted_list_of_set (\<Union> (set (map (\<lambda>r. set (languages_of r)) (filter not_fork repos))))"
  by (simp add: final_data_of_def process_repos_eq)

lemma final_data_of_education:
  "education (final_data_of github_url user repos) = education_of user"
  by (simp add: final_data_of_def process_repos_eq)

lemma process_repos_filter_forks: "process_repos (filter not_fork repos) = process_repos repos"
proof -
  have "filter (\<lambda>r. not_fork r \<and> significant r) (filter not_fork xs)
      = filter (\<lambda>r. not_fork r \<and> significant r) xs" for xs
    by (induction xs) auto
  then show ?thesis
    by (simp add: process_repos_eq filter_sorted_reverse [symmetric])
qed

lemma final_data_of_filter_forks:
  "final_data_of github_url user (filter not_fork repos) = final_data_of github_url user repos"
  by (simp add: final_data_of_def process_repos_filter_forks)

lemma example_repo_selected:
  "0 < s \<Longrightarrow> not_fork (example_repo n s f) \<and> significant (example_repo n s f)"
  by (simp add: not_fork_def significant_def example_repo_def)

section \<open>Facts about chained and independent substitution\<close>

text \<open>
  A chain of \<open>replace\<close> calls over a table of independent pairs gives the same text as
  the substitution against the original template, in whatever order the pairs are taken.
\<close>

lemma comparable_append: "comparable k (a @ b) \<Longrightarrow> comparable k a"
  unfolding comparable_def
  by (metis prefix_append prefix_order.trans prefixI append_prefixD)

lemma starts_within_append_left:
  "\<not> starts_within k a \<Longrightarrow> starts_within k (a @ b) = starts_within k b"
proof (induction a)
  case Nil
  then show ?case by simp
next
  case (Cons c a)
  from Cons.prems have "\<not> comparable k (c # a)" "\<not> starts_within k a" by auto
  moreover from this have "\<not> comparable k ((c # a) @ b)" using comparable_append by blast
  ultimately show ?case using Cons.IH by simp
qed

lemma starts_within_prefix: "starts_within (h @ r) s \<Longrightarrow> starts_within h s"
proof (induction s)
  case Nil
  then show ?case by simp
next
  case (Cons c s)
  have "comparable (h @ r) (c # s) \<Longrightarrow> comparable h (c # s)"
    unfolding comparable_def
    by (metis prefix_append prefix_order.trans prefixI append_prefixD)
  with Cons show ?case by auto
qed

lemma replace_from_skip:
  "\<not> starts_within k b \<Longrightarrow> replace_from k f (b @ w) = b @ replace_from k f w"
proof (induction b)
  case Nil
  then show ?case by simp
next
  case (Cons c b)
  from Cons.prems have nc: "\<not> comparable k (c # b)" and "\<not> starts_within k b" by auto
  from nc have "\<not> prefix k ((c # b) @ w)"
    using comparable_append [of k "c # b" w] by (auto simp: comparable_def)
  with Cons show ?case by simp
qed

lemma replace_skip:
  "k \<noteq> [] \<Longrightarrow> \<not> starts_within k b \<Longrightarrow> replace k f (b @ w) = b @ replace k f w"
  by (simp add: replace_def replace_from_skip)

lemma starts_within_suffix:
  "us \<noteq> [] \<Longrightarrow> comparable f us \<Longrightarrow> starts_within f (a @ us)"
  by (induction a) (auto simp: neq_Nil_conv)

lemma prefix_after_fragment:
  assumes "f \<noteq> []" "\<not> starts_within k' f" "\<not> starts_within f (tl k')"
    and p: "prefix k' (a @ f @ r)"
  shows "prefix k' a"
proof (rule ccontr)
  assume n: "\<not> prefix k' a"
  with p obtain us where us: "k' = a @ us" "prefix us (f @ r)"
    by (auto simp: prefix_append)
  with n have ne: "us \<noteq> []" by auto
  from us(2) have c: "comparable us f"
    unfolding comparable_def by (metis prefix_append prefixI)
  show False
  proof (cases a)
    case Nil
    with us c have "comparable k' f" by simp
    with assms(1) have "starts_within k' f" by (cases f) auto
    with assms(2) show False by simp
  next
    case (Cons x a')
    with us have "tl k' = a' @ us" by simp
    moreover from c have "comparable f us" by (auto simp: comparable_def)
    ultimately have "starts_within f (tl k')" using ne by (simp add: starts_within_suffix)
    with assms(3) show False by simp
  qed
qed

lemma no_creation_from:
  assumes "f \<noteq> []" "\<not> starts_within k' f" "\<not> starts_within f (tl k')"
  shows "\<not> prefix k' (a @ w) \<Longrightarrow> \<not> prefix k' (a @ replace_from k f w)"
proof (induction w arbitrary: a)
  case Nil
  then show ?case by simp
next
  case (Cons c cs)
  show ?case
  proof (cases "prefix k (c # cs)")
    case True
    show ?thesis
    proof
      assume "prefix k' (a @ replace_from k f (c # cs))"
      with True have "prefix k' (a @ f @ replace_from k f (drop (length k - 1) cs))" by simp
      with assms have "prefix k' a" by (rule prefix_after_fragment)
      then have "prefix k' (a @ c # cs)" by (metis prefix_order.trans prefixI)
      with Cons.prems show False by simp
    qed
  next
    case False
    from Cons.prems have "\<not> prefix k' ((a @ [c]) @ cs)" by simp
    then have "\<not> prefix k' ((a @ [c]) @ replace_from k f cs)" by (rule Cons.IH)
    with False show ?thesis by simp
  qed
qed

lemma no_creation:
  assumes "k \<noteq> []" "f \<noteq> []" "\<not> starts_within k' f" "\<not> starts_within f (tl k')"
    and "\<not> prefix k' (a @ w)"
  shows "\<not> prefix k' (a @ replace k f w)"
  using assms by (simp add: replace_def no_creation_from)

lemma replace_at_block: "k \<noteq> [] \<Longrightarrow> replace k f (k @ r) = f @ replace k f r"
  by (cases k) (simp_all add: replace_def)

lemma replace_no_prefix:
  "k \<noteq> [] \<Longrightarrow> \<not> prefix k (c # w) \<Longrightarrow> replace k f (c # w) = c # replace k f w"
  by (simp add: replace_def)

lemma replace_items_empty: "\<forall>(k, f) \<in> set items. k \<noteq> [] \<Longrightarrow> replace_items items [] = []"
  by (induction items) (auto simp: replace_def)

lemma replace_items_skip:
  "\<forall>(k, f) \<in> set items. k \<noteq> [] \<and> \<not> starts_within k b
   \<Longrightarrow> replace_items items (b @ w) = b @ replace_items items w"
proof (induction items arbitrary: w)
  case Nil
  then show ?case by simp
next
  case (Cons p items)
  obtain k f where p: "p = (k, f)" by (cases p)
  with Cons.prems have "replace k f (b @ w) = b @ replace k f w"
    by (simp add: replace_skip)
  with Cons p show ?case by simp
qed

lemma replace_items_char:
  assumes ind: "independent_pairs ps"
  shows "set items \<subseteq> set ps \<Longrightarrow> distinct (map fst items)
      \<Longrightarrow> \<forall>(k, f) \<in> set items. \<not> prefix k (c # w)
      \<Longrightarrow> replace_items items (c # w) = c # replace_items items w"
proof (induction items arbitrary: w)
  case Nil
  then show ?case by simp
next
  case (Cons p items)
  obtain k f where p: "p = (k, f)" by (cases p)
  from Cons.prems p have kf: "(k, f) \<in> set ps" and np: "\<not> prefix k (c # w)" by auto
  from ind kf have ne: "k \<noteq> []" "f \<noteq> []" by (auto simp: independent_pairs_def)
  have step: "replace k f (c # w) = c # replace k f w"
    using ne np by (simp add: replace_no_prefix)
  have "\<forall>(k', f') \<in> set items. \<not> prefix k' (c # replace k f w)"
  proof (clarify)
    fix k' f'
    assume in': "(k', f') \<in> set items" and pr: "prefix k' (c # replace k f w)"
    from in' Cons.prems p have "k' \<noteq> k" by (auto simp: rev_image_eqI)
    moreover from in' Cons.prems have "(k', f') \<in> set ps" by auto
    ultimately have "\<not> starts_within k' f" "\<not> starts_within f (tl k')"
      using ind kf by (auto simp: independent_pairs_def)
    moreover from in' Cons.prems have "\<not> prefix k' ([c] @ w)" by auto
    ultimately have "\<not> prefix k' ([c] @ replace k f w)"
      using ne by (intro no_creation)
    with pr show False by simp
  qed
  moreover from Cons.prems have "set items \<subseteq> set ps" "distinct (map fst items)" by auto
  ultimately have "replace_items items (c # replace k f w) = c # replace_items items (replace k f w)"
    by (rule Cons.IH [rotated 2])
  with step p show ?case by simp
qed

lemma replace_items_block:
  assumes ind: "independent_pairs ps" and kf: "(k, f) \<in> set ps"
  shows "replace_items ps (k @ r) = f @ replace_items ps r"
proof -
  from kf obtain pre post where ps: "ps = pre @ (k, f) # post" by (auto dest: split_list)
  from ind have d: "distinct (map fst ps)" by (simp add: independent_pairs_def)
  from ind kf have ne: "k \<noteq> []" "f \<noteq> []" by (auto simp: independent_pairs_def)
  have pre: "\<forall>(k', f') \<in> set pre. k' \<noteq> [] \<and> \<not> starts_within k' k"
  proof (clarify)
    fix k' f' assume i: "(k', f') \<in> set pre"
    with d ps have "k' \<noteq> k" by (auto simp: rev_image_eqI)
    moreover from i ps have "(k', f') \<in> set ps" by simp
    ultimately show "k' \<noteq> [] \<and> \<not> starts_within k' k"
      using ind kf by (auto simp: independent_pairs_def)
  qed
  have post: "\<forall>(k', f') \<in> set post. k' \<noteq> [] \<and> \<not> starts_within k' f"
  proof (clarify)
    fix k' f' assume i: "(k', f') \<in> set post"
    with d ps have "k' \<noteq> k" by (auto simp: rev_image_eqI)
    moreover from i ps have "(k', f') \<in> set ps" by simp
    ultimately show "k' \<noteq> [] \<and> \<not> starts_within k' f"
      using ind kf by (auto simp: independent_pairs_def)
  qed
  have "replace_items ps (k @ r)
      = replace_items post (replace k f (replace_items pre (k @ r)))"
    by (simp add: ps replace_items_append)
  also have "\<dots> = replace_items post (replace k f (k @ replace_items pre r))"
    using pre by (simp add: replace_items_skip)
  also have "\<dots> = replace_items post (f @ replace k f (replace_items pre r))"
    using ne by (simp add: replace_at_block)
  also have "\<dots> = f @ replace_items post (replace k f (replace_items pre r))"
    using post by (simp add: replace_items_skip)
  also have "\<dots> = f @ replace_items ps r"
    by (simp add: ps replace_items_append)
  finally show ?thesis .
qed

lemma find_SomeD: "find P xs = Some x \<Longrightarrow> x \<in> set xs \<and> P x"
  by (induction xs) (auto split: if_splits)

lemma chained_is_independent:
  "independent_pairs ps \<Longrightarrow> replace_items ps t = substitute_independently ps t"
proof (induction ps t rule: substitute_independently.induct)
  case (1 pairs)
  then have "\<forall>(k, f) \<in> set pairs. k \<noteq> []" by (auto simp: independent_pairs_def)
  then show ?case by (simp add: replace_items_empty)
next
  case (2 pairs c cs)
  note ind = \<open>independent_pairs pairs\<close>
  show ?case
  proof (cases "find (\<lambda>(block, fragment). block \<noteq> [] \<and> prefix block (c # cs)) pairs")
    case None
    then have "\<forall>(k, f) \<in> set pairs. \<not> (k \<noteq> [] \<and> prefix k (c # cs))"
      by (auto simp: find_None_iff)
    with ind have "\<forall>(k, f) \<in> set pairs. \<not> prefix k (c # cs)"
      by (auto simp: independent_pairs_def)
    moreover from ind have "distinct (map fst pairs)" by (simp add: independent_pairs_def)
    ultimately have "replace_items pairs (c # cs) = c # replace_items pairs cs"
      using ind by (intro replace_items_char [OF ind]) auto
    with None 2(1) ind show ?thesis by simp
  next
    case (Some x)
    obtain k f where x: "x = (k, f)" by (cases x)
    from Some x have kf: "(k, f) \<in> set pairs" and pr: "prefix k (c # cs)" and ne: "k \<noteq> []"
      by (auto dest: find_SomeD)
    from pr ne have split: "c # cs = k @ drop (length k - 1) cs"
      by (cases k) (auto simp: prefix_def)
    have "replace_items pairs (k @ drop (length k - 1) cs)
        = f @ replace_items pairs (drop (length k - 1) cs)"
      using ind kf by (rule replace_items_block)
    then have "replace_items pairs (c # cs) = f @ replace_items pairs (drop (length k - 1) cs)"
      unfolding split [symmetric] .
    moreover have "replace_items pairs (drop (length k - 1) cs)
        = substitute_independently pairs (drop (length k - 1) cs)"
      using 2(2) [OF Some x [symmetric]] ind by simp
    moreover have "substitute_independently pairs (c # cs)
        = f @ substitute_independently pairs (drop (length k - 1) cs)"
      using Some x by simp
    ultimately show ?thesis by simp
  qed
qed

lemma find_unique:
  assumes "set xs = set ys" and u: "\<forall>x \<in> set xs. \<forall>y \<in> set xs. P x \<and> P y \<longrightarrow> x = y"
  shows "find P xs = find P ys"
proof (cases "find P xs")
  case None
  then have "\<forall>x \<in> set xs. \<not> P x" by (simp add: find_None_iff)
  with assms have "find P ys = None" by (simp add: find_None_iff)
  with None show ?thesis by simp
next
  case (Some x)
  then have x: "x \<in> set xs" "P x" by (auto dest: find_SomeD)
  show ?thesis
  proof (cases "find P ys")
    case None
    with x assms show ?thesis by (auto simp: find_None_iff)
  next
    case (Some y)
    then have "y \<in> set ys" "P y" by (auto dest: find_SomeD)
    with x u assms have "x = y" by auto
    with Some \<open>find P xs = Some x\<close> show ?thesis by simp
  qed
qed

lemma independent_pairs_unique:
  assumes ind: "independent_pairs ps"
    and a: "(k, f) \<in> set ps" "k \<noteq> [] \<and> prefix k s"
    and b: "(k', f') \<in> set ps" "k' \<noteq> [] \<and> prefix k' s"
  shows "(k, f) = (k', f')"
proof -
  have "k = k'"
  proof (rule ccontr)
    assume "k \<noteq> k'"
    with ind a(1) b(1) have "\<not> starts_within k' k" by (auto simp: independent_pairs_def)
    moreover from a(2) b(2) have "comparable k' k"
      unfolding comparable_def by (metis prefix_same_cases)
    ultimately show False using a(2) by (cases k) auto
  qed
  moreover from ind have "distinct (map fst ps)" by (simp add: independent_pairs_def)
  ultimately show ?thesis using a(1) b(1) by (auto dest: eq_key_imp_eq_value)
qed

lemma substitute_independently_permute:
  assumes ind: "independent_pairs ps" and m: "mset qs = mset ps"
  shows "substitute_independently qs t = substitute_independently ps t"
proof -
  from m have s: "set qs = set ps" by (rule mset_eq_setD)
  have f: "find (\<lambda>(block, fragment). block \<noteq> [] \<and> prefix block u) qs
      = find (\<lambda>(block, fragment). block \<noteq> [] \<and> prefix block u) ps" for u
  proof (rule find_unique [OF s])
    show "\<forall>x \<in> set qs. \<forall>y \<in> set qs.
        (case x of (block, fragment) \<Rightarrow> block \<noteq> [] \<and> prefix block u)
        \<and> (case y of (block, fragment) \<Rightarrow> block \<noteq> [] \<and> prefix block u) \<longrightarrow> x = y"
      using independent_pairs_unique [OF ind] s by fastforce
  qed
  show ?thesis
  proof (induction t rule: length_induct)
    case (1 t)
    show ?case
    proof (cases t)
      case Nil
      then show ?thesis by simp
    next
      case (Cons c cs)
      show ?thesis
      proof (cases "find (\<lambda>(block, fragment). block \<noteq> [] \<and> prefix block (c # cs)) ps")
        case None
        moreover from 1 Cons
        have "substitute_independently qs cs = substitute_independently ps cs" by simp
        ultimately show ?thesis using Cons f [of "c # cs"] by simp
      next
        case (Some x)
        obtain k v where x: "x = (k, v)" by (cases x)
        from 1 Cons have "substitute_independently qs (drop (length k - 1) cs)
            = substitute_independently ps (drop (length k - 1) cs)"
          by simp
        with Some x show ?thesis using Cons f [of "c # cs"] by simp
      qed
    qed
  qed
qed

lemma independent_pairs_permute:
  "independent_pairs ps \<Longrightarrow> mset qs = mset ps \<Longrightarrow> independent_pairs qs"
proof -
  assume ind: "independent_pairs ps" and m: "mset qs = mset ps"
  from m have s: "set qs = set ps" by (rule mset_eq_setD)
  from m have "mset (map fst qs) = mset (map fst ps)" by simp
  then have "distinct (map fst qs) = distinct (map fst ps)" by (rule mset_eq_imp_distinct_iff)
  with ind s show ?thesis by (simp add: independent_pairs_def)
qed

section \<open>Facts about the blocks and the fragments of the renderer\<close>

text \<open>
  The table of \<open>generate_latex_resume\<close> is a table of independent pairs, whatever the
  data: the six blocks begin differently, and the text that \<open>sanitize\<close> returns contains
  no backslash followed by a letter other than \<open>t\<close>, so that no block can begin inside a
  sanitized field or across the border of one.
\<close>

lemmas mark_defs = name_mark_def skills_mark_def list_start_def experience_mark_def
  projects_mark_def education_mark_def contact_mark_def

lemma marks_prefix:
  "prefix name_mark name_block" "prefix skills_mark skills_block"
  "prefix experience_mark experience_block" "prefix projects_mark projects_block"
  "prefix education_mark education_block" "prefix contact_mark contact_block"
  by (simp_all add: mark_defs name_block_def skills_block_def experience_block_def
      projects_block_def education_block_def contact_block_def py_def cmd_def)

lemma starts_within_mark:
  "prefix m k \<Longrightarrow> \<not> starts_within m s \<Longrightarrow> \<not> starts_within k s"
  by (auto simp: prefix_def dest: starts_within_prefix)

lemma name_block_clear:
  "\<not> starts_within skills_mark name_block" "\<not> starts_within experience_mark name_block"
  "\<not> starts_within projects_mark name_block" "\<not> starts_within education_mark name_block"
  "\<not> starts_within contact_mark name_block" "\<not> starts_within list_start (tl name_block)"
  by (simp_all add: mark_defs name_block_def py_def cmd_def comparable_def)

lemma skills_block_clear:
  "\<not> starts_within name_mark skills_block" "\<not> starts_within experience_mark skills_block"
  "\<not> starts_within projects_mark skills_block" "\<not> starts_within education_mark skills_block"
  "\<not> starts_within contact_mark skills_block" "\<not> starts_within list_start (tl skills_block)"
  by (simp_all add: mark_defs skills_block_def py_def cmd_def comparable_def)

lemma experience_block_clear:
  "\<not> starts_within name_mark experience_block" "\<not> starts_within skills_mark experience_block"
  "\<not> starts_within projects_mark experience_block"
  "\<not> starts_within education_mark experience_block"
  "\<not> starts_within contact_mark experience_block"
  "\<not> starts_within list_start (tl experience_block)"
  by (simp_all add: mark_defs experience_block_def py_def cmd_def comparable_def)

lemma projects_block_clear:
  "\<not> starts_within name_mark projects_block" "\<not> starts_within skills_mark projects_block"
  "\<not> starts_within experience_mark projects_block"
  "\<not> starts_within education_mark projects_block"
  "\<not> starts_within contact_mark projects_block"
  "\<not> starts_within list_start (tl projects_block)"
  by (simp_all add: mark_defs projects_block_def py_def cmd_def comparable_def)

lemma education_block_clear:
  "\<not> starts_within name_mark education_block" "\<not> starts_within skills_mark education_block"
  "\<not> starts_within experience_mark education_block"
  "\<not> starts_within projects_mark education_block"
  "\<not> starts_within contact_mark education_block"
  "\<not> starts_within list_start (tl education_block)"
  by (simp_all add: mark_defs education_block_def py_def cmd_def comparable_def)

lemma contact_block_clear:
  "\<not> starts_within name_mark contact_block" "\<not> starts_within skills_mark contact_block"
  "\<not> starts_within experience_mark contact_block"
  "\<not> starts_within projects_mark contact_block"
  "\<not> starts_within education_mark contact_block"
  "\<not> starts_within list_start (tl contact_block)"
  by (simp_all add: mark_defs contact_block_def py_def cmd_def comparable_def)

lemma sanitize_items_append:
  "replace_items sanitize_replacements (x @ y)
     = replace_items sanitize_replacements x @ replace_items sanitize_replacements y"
  by (simp add: sanitize_replacements_def py_def cmd_def replace_single)

lemma sanitize_items_Cons:
  "replace_items sanitize_replacements (c # cs)
     = sanitize_char c @ replace_items sanitize_replacements cs"
  using sanitize_items_append [of "[c]" cs] by (simp add: sanitize_char_def)

lemma sanitize_char_special:
  "sanitize_char 38 = cmd ''textbackslash{}&''"
  "sanitize_char 37 = cmd ''textbackslash{}%''"
  "sanitize_char 36 = cmd ''textbackslash{}$''"
  "sanitize_char 35 = cmd ''textbackslash{}#''"
  "sanitize_char 95 = cmd ''textbackslash{}_''"
  "sanitize_char 123 = cmd ''textbackslash{}{''"
  "sanitize_char 125 = cmd ''textbackslash{}}''"
  "sanitize_char 126 = cmd ''textbackslash{}textasciitilde{}''"
  "sanitize_char 94 = cmd ''textbackslash{}textasciicircum{}''"
  "sanitize_char 92 = cmd ''textbackslash{}''"
  "sanitize_char 60 = cmd ''textless{}''"
  "sanitize_char 62 = cmd ''textgreater{}''"
  "sanitize_char 124 = py ''$|$''"
  by (simp_all add: sanitize_char_def sanitize_replacements_def replace_single py_def cmd_def)

lemma sanitize_char_other:
  assumes "c \<notin> {38, 37, 36, 35, 95, 123, 125, 126, 94, 92, 60, 62, 124}"
  shows "sanitize_char c = [c]"
  using assms
  by (simp add: sanitize_char_def sanitize_replacements_def replace_single py_def cmd_def)

lemma sanitize_char_clear_other:
  assumes "x \<noteq> 116"
  shows "\<not> starts_within (92 # x # ms) (sanitize_char c)"
proof (cases "c \<in> {38, 37, 36, 35, 95, 123, 125, 126, 94, 92, 60, 62, 124}")
  case True
  then consider "c = 38" | "c = 37" | "c = 36" | "c = 35" | "c = 95" | "c = 123" | "c = 125"
    | "c = 126" | "c = 94" | "c = 92" | "c = 60" | "c = 62" | "c = 124"
    by auto
  then show ?thesis using assms
    by cases (simp_all add: sanitize_char_special, simp_all add: py_def cmd_def comparable_def)
next
  case False
  then have "sanitize_char c = [c]" "c \<noteq> 92" by (simp_all add: sanitize_char_other)
  then show ?thesis by (simp add: comparable_def)
qed

lemma sanitize_char_clear_name: "\<not> starts_within name_mark (sanitize_char c)"
proof (cases "c \<in> {38, 37, 36, 35, 95, 123, 125, 126, 94, 92, 60, 62, 124}")
  case True
  then consider "c = 38" | "c = 37" | "c = 36" | "c = 35" | "c = 95" | "c = 123" | "c = 125"
    | "c = 126" | "c = 94" | "c = 92" | "c = 60" | "c = 62" | "c = 124"
    by auto
  then show ?thesis
    by cases (simp_all add: sanitize_char_special,
        simp_all add: name_mark_def py_def cmd_def comparable_def)
next
  case False
  then have "sanitize_char c = [c]" "c \<noteq> 92" by (simp_all add: sanitize_char_other)
  then show ?thesis by (simp add: name_mark_def py_def cmd_def comparable_def)
qed

lemma marks_shape:
  "skills_mark = 92 # 98 # tl (tl skills_mark)"
  "list_start = 92 # 114 # tl (tl list_start)"
  "experience_mark = 92 # 114 # tl (tl experience_mark)"
  "projects_mark = 92 # 114 # tl (tl projects_mark)"
  "education_mark = 92 # 114 # tl (tl education_mark)"
  "contact_mark = 92 # 98 # tl (tl contact_mark)"
  by (simp_all add: mark_defs py_def cmd_def)

lemma sanitize_char_clear:
  assumes "m \<in> {name_mark, skills_mark, list_start, experience_mark, projects_mark,
      education_mark, contact_mark}"
  shows "\<not> starts_within m (sanitize_char c)"
proof -
  from assms consider "m = name_mark" | "m = skills_mark" | "m = list_start"
    | "m = experience_mark" | "m = projects_mark" | "m = education_mark" | "m = contact_mark"
    by auto
  then show ?thesis
  proof cases
    case 1
    then show ?thesis by (simp add: sanitize_char_clear_name)
  next
    case 2
    show ?thesis unfolding 2 by (subst marks_shape) (simp add: sanitize_char_clear_other)
  next
    case 3
    show ?thesis unfolding 3 by (subst marks_shape) (simp add: sanitize_char_clear_other)
  next
    case 4
    show ?thesis unfolding 4 by (subst marks_shape) (simp add: sanitize_char_clear_other)
  next
    case 5
    show ?thesis unfolding 5 by (subst marks_shape) (simp add: sanitize_char_clear_other)
  next
    case 6
    show ?thesis unfolding 6 by (subst marks_shape) (simp add: sanitize_char_clear_other)
  next
    case 7
    show ?thesis unfolding 7 by (subst marks_shape) (simp add: sanitize_char_clear_other)
  qed
qed

lemma sanitize_items_clear:
  assumes "m \<in> {name_mark, skills_mark, list_start, experience_mark, projects_mark,
      education_mark, contact_mark}"
  shows "\<not> starts_within m (replace_items sanitize_replacements s)"
proof (induction s)
  case Nil
  show ?case
    by (simp add: sanitize_replacements_def py_def cmd_def replace_single)
next
  case (Cons c cs)
  with sanitize_char_clear [OF assms, of c] show ?case
    by (simp add: sanitize_items_Cons starts_within_append_left)
qed

lemma sanitize_clear:
  assumes "m \<in> {name_mark, skills_mark, list_start, experience_mark, projects_mark,
      education_mark, contact_mark}"
  shows "\<not> starts_within m (sanitize s)" "\<not> starts_within m (sanitize_value v)"
proof -
  show s: "\<not> starts_within m (sanitize s)" for s
    using sanitize_items_clear [OF assms] by (simp add: sanitize_def)
  show "\<not> starts_within m (sanitize_value v)"
    using s by (cases v) simp_all
qed

lemma clearI:
  "\<not> starts_within m a \<Longrightarrow> \<not> starts_within m b \<Longrightarrow> \<not> starts_within m (a @ b)"
  by (simp add: starts_within_append_left)

lemma clear_concat:
  "(\<And>x. x \<in> set xs \<Longrightarrow> \<not> starts_within m x) \<Longrightarrow> \<not> starts_within m (concat xs)"
  by (induction xs) (simp_all add: starts_within_append_left)

lemma join_Cons: "join sep (x # xs) = x @ concat (map ((@) sep) xs)"
  by (induction xs arbitrary: x) simp_all

lemma clear_join:
  assumes "\<not> starts_within m sep" and x: "\<And>x. x \<in> set xs \<Longrightarrow> \<not> starts_within m x"
  shows "\<not> starts_within m (join sep xs)"
proof (cases xs)
  case Nil
  then show ?thesis by simp
next
  case (Cons a as)
  have "\<not> starts_within m (concat (map ((@) sep) as))"
  proof (rule clear_concat)
    fix y assume "y \<in> set (map ((@) sep) as)"
    then obtain z where z: "z \<in> set as" "y = sep @ z" by auto
    with x Cons have "\<not> starts_within m z" by simp
    with assms(1) z show "\<not> starts_within m y" by (simp add: clearI)
  qed
  moreover from x Cons have "\<not> starts_within m a" by simp
  ultimately show ?thesis unfolding Cons join_Cons by (rule clearI [rotated])
qed

lemmas sanitize_clear_marks =
  sanitize_clear [of name_mark, simplified] sanitize_clear [of skills_mark, simplified]
  sanitize_clear [of experience_mark, simplified] sanitize_clear [of projects_mark, simplified]
  sanitize_clear [of education_mark, simplified] sanitize_clear [of contact_mark, simplified]

lemma contact_section_clear:
  assumes "m \<in> {name_mark, skills_mark, experience_mark, projects_mark, education_mark}"
  shows "\<not> starts_within m (contact_section d)"
  using assms unfolding contact_section_def
  by (elim insertE emptyE; hypsubst;
      intro clearI sanitize_clear_marks;
      simp add: mark_defs py_def cmd_def comparable_def)

lemma name_section_clear:
  assumes "m \<in> {skills_mark, experience_mark, projects_mark, education_mark, contact_mark}"
  shows "\<not> starts_within m (name_section d)"
  using assms unfolding name_section_def
  by (elim insertE emptyE; hypsubst;
      intro clearI sanitize_clear_marks;
      simp add: mark_defs py_def cmd_def comparable_def)

lemma skills_section_clear:
  assumes "m \<in> {name_mark, experience_mark, projects_mark, education_mark, contact_mark}"
  shows "\<not> starts_within m (skills_section d)"
proof -
  define a where "a = cmd ''begin{itemize}[leftmargin=0.15in, label={}]\<newline>''
     @ py ''    '' @ cmd ''small{'' @ cmd ''item{\<newline>''
     @ py ''    '' @ cmd ''textbf{Programming Languages}: ''"
  define b where "b = py '' '' @ [92, 92] @ py ''\<newline>''
     @ py ''    '' @ cmd ''textbf{Technologies}: ''"
  define c where "c = py '' '' @ [92, 92] @ py ''\<newline>''
     @ py ''    }}\<newline>''
     @ cmd ''end{itemize}''"
  have "skills_section d =
      a @ sanitize (join (py '', '') (programming_languages_of (skills d)))
      @ b @ sanitize (join (py '', '') (technologies_of (skills d))) @ c"
    by (simp add: skills_section_def a_def b_def c_def)
  moreover have "\<not> starts_within m a" "\<not> starts_within m b" "\<not> starts_within m c"
    using assms unfolding a_def b_def c_def
    by (elim insertE emptyE; hypsubst; simp add: mark_defs py_def cmd_def comparable_def)+
  moreover from assms have "m \<in> {name_mark, skills_mark, list_start, experience_mark,
      projects_mark, education_mark, contact_mark}"
    by auto
  then have "\<not> starts_within m (sanitize s)" for s by (rule sanitize_clear)
  ultimately show ?thesis by (simp add: clearI)
qed

lemma experience_item_clear:
  assumes "m \<in> {name_mark, skills_mark, projects_mark, education_mark, contact_mark}"
  shows "\<not> starts_within m (experience_item d e)"
  using assms unfolding experience_item_def
  by (elim insertE emptyE; hypsubst;
      intro clearI sanitize_clear_marks;
      simp add: mark_defs py_def cmd_def comparable_def)

lemma project_item_clear:
  assumes "m \<in> {name_mark, skills_mark, experience_mark, education_mark, contact_mark}"
  shows "\<not> starts_within m (project_item p)"
  using assms unfolding project_item_def
  by (elim insertE emptyE; hypsubst;
      intro clearI sanitize_clear_marks;
      simp add: mark_defs py_def cmd_def comparable_def)

lemma education_item_clear:
  assumes "m \<in> {name_mark, skills_mark, experience_mark, projects_mark, contact_mark}"
  shows "\<not> starts_within m (education_item d e)"
  using assms unfolding education_item_def
  by (elim insertE emptyE; hypsubst;
      intro clearI sanitize_clear_marks;
      simp add: mark_defs py_def cmd_def comparable_def)

lemma list_sections_empty_clear:
  assumes "m \<in> {name_mark, skills_mark, experience_mark, projects_mark, education_mark,
      contact_mark}"
  shows "\<not> starts_within m
     (cmd ''resumeSubHeadingListStart\<newline>'' @ py ''\<newline>'' @ cmd ''resumeSubHeadingListEnd'')"
  using assms
  by (elim insertE emptyE; hypsubst; simp add: mark_defs py_def cmd_def comparable_def)

lemma list_end_clear:
  assumes "m \<in> {name_mark, skills_mark, experience_mark, projects_mark, education_mark,
      contact_mark}"
  shows "\<not> starts_within m (py ''\<newline>'' @ cmd ''resumeSubHeadingListEnd'')"
    and "\<not> starts_within m (py ''\<newline>'')"
  using assms
  by (elim insertE emptyE; hypsubst; simp add: mark_defs py_def cmd_def comparable_def)+

lemma list_heads_clear:
  "m \<in> {name_mark, skills_mark, projects_mark, education_mark, contact_mark}
     \<Longrightarrow> \<not> starts_within m
          (list_start @ cmd ''resumeSubheading\<newline>'' @ py ''            {'')"
  "m \<in> {name_mark, skills_mark, experience_mark, education_mark, contact_mark}
     \<Longrightarrow> \<not> starts_within m
          (list_start @ cmd ''resumeSubheading\<newline>'' @ py ''                {'')"
  "m \<in> {name_mark, skills_mark, experience_mark, projects_mark, contact_mark}
     \<Longrightarrow> \<not> starts_within m (list_start @ cmd ''resumeSubheading{'')"
  by (elim insertE emptyE; hypsubst; simp add: mark_defs py_def cmd_def comparable_def)+

lemma experience_item_split:
  obtains t where
    "experience_item d e = cmd ''resumeSubheading\<newline>'' @ py ''            {'' @ t"
    "\<And>m. m \<in> {name_mark, skills_mark, projects_mark, education_mark, contact_mark}
       \<Longrightarrow> \<not> starts_within m t"
proof
  show "experience_item d e = cmd ''resumeSubheading\<newline>'' @ py ''            {''
     @ (sanitize (exp_data.company e)
     @ py ''}{'' @ sanitize_value (final_data.location d) @ py ''}\<newline>''
     @ py ''            {'' @ sanitize (exp_data.position e)
     @ py ''}{'' @ sanitize (exp_data.date e) @ py ''}\<newline>''
     @ py ''            '' @ cmd ''resumeItemListStart\<newline>''
     @ py ''            '' @ cmd ''resumeItem{'' @ sanitize (exp_data.description e)
     @ py ''}\<newline>''
     @ py ''            '' @ cmd ''resumeItemListEnd'')"
    by (simp add: experience_item_def)
  show "\<not> starts_within m (sanitize (exp_data.company e)
     @ py ''}{'' @ sanitize_value (final_data.location d) @ py ''}\<newline>''
     @ py ''            {'' @ sanitize (exp_data.position e)
     @ py ''}{'' @ sanitize (exp_data.date e) @ py ''}\<newline>''
     @ py ''            '' @ cmd ''resumeItemListStart\<newline>''
     @ py ''            '' @ cmd ''resumeItem{'' @ sanitize (exp_data.description e)
     @ py ''}\<newline>''
     @ py ''            '' @ cmd ''resumeItemListEnd'')"
    if "m \<in> {name_mark, skills_mark, projects_mark, education_mark, contact_mark}" for m
    using that
    by (elim insertE emptyE; hypsubst;
        intro clearI sanitize_clear_marks;
        simp add: mark_defs py_def cmd_def comparable_def)
qed

lemma experience_section_clear:
  assumes m: "m \<in> {name_mark, skills_mark, projects_mark, education_mark, contact_mark}"
  shows "\<not> starts_within m (experience_section d)"
proof (cases "take 3 (experience d)")
  case Nil
  from m have "m \<in> {name_mark, skills_mark, experience_mark, projects_mark, education_mark,
      contact_mark}" by auto
  then show ?thesis
    unfolding experience_section_def Nil by (simp add: list_sections_empty_clear)
next
  case (Cons e es)
  from m have m6: "m \<in> {name_mark, skills_mark, experience_mark, projects_mark,
      education_mark, contact_mark}" by auto
  obtain t where t: "experience_item d e
      = cmd ''resumeSubheading\<newline>'' @ py ''            {'' @ t"
    "\<And>m. m \<in> {name_mark, skills_mark, projects_mark, education_mark, contact_mark}
       \<Longrightarrow> \<not> starts_within m t"
    by (rule experience_item_split [of d e]) blast
  define h where "h = list_start @ cmd ''resumeSubheading\<newline>'' @ py ''            {''"
  define f where "f = py ''\<newline>'' @ cmd ''resumeSubHeadingListEnd''"
  define r where "r = concat (map ((@) (py ''\<newline>'')) (map (experience_item d) es))"
  have eq: "experience_section d = h @ t @ r @ f"
    by (simp add: experience_section_def Cons join_Cons t(1) list_start_def h_def f_def r_def)
  have "\<not> starts_within m r"
    unfolding r_def
  proof (rule clear_concat)
    fix x assume "x \<in> set (map ((@) (py ''\<newline>'')) (map (experience_item d) es))"
    then obtain e' where "x = py ''\<newline>'' @ experience_item d e'" by auto
    then show "\<not> starts_within m x"
      using list_end_clear(2) [OF m6] experience_item_clear [OF m] by (simp add: clearI)
  qed
  moreover have "\<not> starts_within m h" unfolding h_def by (rule list_heads_clear(1) [OF m])
  moreover have "\<not> starts_within m f" unfolding f_def by (rule list_end_clear(1) [OF m6])
  moreover note t(2) [OF m]
  ultimately show ?thesis unfolding eq by (intro clearI)
qed

lemma project_item_split:
  obtains t where
    "project_item p = cmd ''resumeSubheading\<newline>'' @ py ''                {'' @ t"
    "\<And>m. m \<in> {name_mark, skills_mark, experience_mark, education_mark, contact_mark}
       \<Longrightarrow> \<not> starts_within m t"
proof
  show "project_item p = cmd ''resumeSubheading\<newline>'' @ py ''                {''
     @ (sanitize (project_data.name p)
     @ py ''}{'' @ sanitize (py ''GitHub'') @ py ''}\<newline>''
     @ py ''                {Project}{''
     @ sanitize (join (py '', '') (project_data.languages p)) @ py ''}\<newline>''
     @ py ''                '' @ cmd ''resumeItemListStart\<newline>''
     @ py ''                '' @ cmd ''resumeItem{'' @ sanitize (project_data.description p)
     @ py ''}\<newline>''
     @ py ''                '' @ cmd ''resumeItemListEnd'')"
    by (simp add: project_item_def)
  show "\<not> starts_within m (sanitize (project_data.name p)
     @ py ''}{'' @ sanitize (py ''GitHub'') @ py ''}\<newline>''
     @ py ''                {Project}{''
     @ sanitize (join (py '', '') (project_data.languages p)) @ py ''}\<newline>''
     @ py ''                '' @ cmd ''resumeItemListStart\<newline>''
     @ py ''                '' @ cmd ''resumeItem{'' @ sanitize (project_data.description p)
     @ py ''}\<newline>''
     @ py ''                '' @ cmd ''resumeItemListEnd'')"
    if "m \<in> {name_mark, skills_mark, experience_mark, education_mark, contact_mark}" for m
    using that
    by (elim insertE emptyE; hypsubst;
        intro clearI sanitize_clear_marks;
        simp add: mark_defs py_def cmd_def comparable_def)
qed

lemma projects_section_clear:
  assumes m: "m \<in> {name_mark, skills_mark, experience_mark, education_mark, contact_mark}"
  shows "\<not> starts_within m (projects_section d)"
proof (cases "take 2 (projects d)")
  case Nil
  from m have "m \<in> {name_mark, skills_mark, experience_mark, projects_mark, education_mark,
      contact_mark}" by auto
  then show ?thesis
    unfolding projects_section_def Nil by (simp add: list_sections_empty_clear)
next
  case (Cons e es)
  from m have m6: "m \<in> {name_mark, skills_mark, experience_mark, projects_mark,
      education_mark, contact_mark}" by auto
  obtain t where t: "project_item e
      = cmd ''resumeSubheading\<newline>'' @ py ''                {'' @ t"
    "\<And>m. m \<in> {name_mark, skills_mark, experience_mark, education_mark, contact_mark}
       \<Longrightarrow> \<not> starts_within m t"
    by (rule project_item_split [of e]) blast
  define h where "h = list_start @ cmd ''resumeSubheading\<newline>'' @ py ''                {''"
  define f where "f = py ''\<newline>'' @ cmd ''resumeSubHeadingListEnd''"
  define r where "r = concat (map ((@) (py ''\<newline>'')) (map project_item es))"
  have eq: "projects_section d = h @ t @ r @ f"
    by (simp add: projects_section_def Cons join_Cons t(1) list_start_def h_def f_def r_def)
  have "\<not> starts_within m r"
    unfolding r_def
  proof (rule clear_concat)
    fix x assume "x \<in> set (map ((@) (py ''\<newline>'')) (map project_item es))"
    then obtain e' where "x = py ''\<newline>'' @ project_item e'" by auto
    then show "\<not> starts_within m x"
      using list_end_clear(2) [OF m6] project_item_clear [OF m] by (simp add: clearI)
  qed
  moreover have "\<not> starts_within m h" unfolding h_def by (rule list_heads_clear(2) [OF m])
  moreover have "\<not> starts_within m f" unfolding f_def by (rule list_end_clear(1) [OF m6])
  moreover note t(2) [OF m]
  ultimately show ?thesis unfolding eq by (intro clearI)
qed

lemma education_item_split:
  obtains t where
    "education_item d e = cmd ''resumeSubheading{'' @ t"
    "\<And>m. m \<in> {name_mark, skills_mark, experience_mark, projects_mark, contact_mark}
       \<Longrightarrow> \<not> starts_within m t"
proof
  show "education_item d e = cmd ''resumeSubheading{''
     @ (sanitize (education_data.school e)
     @ py ''}{'' @ sanitize_value (final_data.location d)
     @ py ''}{'' @ sanitize (education_data.degree e)
     @ py ''}{'' @ sanitize (education_data.date e) @ py ''}'')"
    by (simp add: education_item_def)
  show "\<not> starts_within m (sanitize (education_data.school e)
     @ py ''}{'' @ sanitize_value (final_data.location d)
     @ py ''}{'' @ sanitize (education_data.degree e)
     @ py ''}{'' @ sanitize (education_data.date e) @ py ''}'')"
    if "m \<in> {name_mark, skills_mark, experience_mark, projects_mark, contact_mark}" for m
    using that
    by (elim insertE emptyE; hypsubst;
        intro clearI sanitize_clear_marks;
        simp add: mark_defs py_def cmd_def comparable_def)
qed

lemma education_section_clear:
  assumes m: "m \<in> {name_mark, skills_mark, experience_mark, projects_mark, contact_mark}"
  shows "\<not> starts_within m (education_section d)"
proof (cases "education d")
  case Nil
  from m have "m \<in> {name_mark, skills_mark, experience_mark, projects_mark, education_mark,
      contact_mark}" by auto
  then show ?thesis
    unfolding education_section_def Nil by (simp add: list_sections_empty_clear)
next
  case (Cons e es)
  from m have m6: "m \<in> {name_mark, skills_mark, experience_mark, projects_mark,
      education_mark, contact_mark}" by auto
  obtain t where t: "education_item d e = cmd ''resumeSubheading{'' @ t"
    "\<And>m. m \<in> {name_mark, skills_mark, experience_mark, projects_mark, contact_mark}
       \<Longrightarrow> \<not> starts_within m t"
    by (rule education_item_split [of d e]) blast
  define h where "h = list_start @ cmd ''resumeSubheading{''"
  define f where "f = py ''\<newline>'' @ cmd ''resumeSubHeadingListEnd''"
  define r where "r = concat (map ((@) (py ''\<newline>'')) (map (education_item d) es))"
  have eq: "education_section d = h @ t @ r @ f"
    by (simp add: education_section_def Cons join_Cons t(1) list_start_def h_def f_def r_def)
  have "\<not> starts_within m r"
    unfolding r_def
  proof (rule clear_concat)
    fix x assume "x \<in> set (map ((@) (py ''\<newline>'')) (map (education_item d) es))"
    then obtain e' where "x = py ''\<newline>'' @ education_item d e'" by auto
    then show "\<not> starts_within m x"
      using list_end_clear(2) [OF m6] education_item_clear [OF m] by (simp add: clearI)
  qed
  moreover have "\<not> starts_within m h" unfolding h_def by (rule list_heads_clear(3) [OF m])
  moreover have "\<not> starts_within m f" unfolding f_def by (rule list_end_clear(1) [OF m6])
  moreover note t(2) [OF m]
  ultimately show ?thesis unfolding eq by (intro clearI)
qed

lemmas block_clears = name_block_clear skills_block_clear experience_block_clear
  projects_block_clear education_block_clear contact_block_clear

lemmas section_clears = name_section_clear skills_section_clear experience_section_clear
  projects_section_clear education_section_clear contact_section_clear

lemma starts_within_tl: "\<not> starts_within m k \<Longrightarrow> \<not> starts_within m (tl k)"
  by (cases k) auto

lemma blocks_apart:
  "\<not> starts_within name_block skills_block" "\<not> starts_within name_block experience_block"
  "\<not> starts_within name_block projects_block" "\<not> starts_within name_block education_block"
  "\<not> starts_within name_block contact_block" "\<not> starts_within skills_block name_block"
  "\<not> starts_within skills_block experience_block" "\<not> starts_within skills_block projects_block"
  "\<not> starts_within skills_block education_block" "\<not> starts_within skills_block contact_block"
  "\<not> starts_within experience_block name_block" "\<not> starts_within experience_block skills_block"
  "\<not> starts_within experience_block projects_block" "\<not> starts_within experience_block education_block"
  "\<not> starts_within experience_block contact_block" "\<not> starts_within projects_block name_block"
  "\<not> starts_within projects_block skills_block" "\<not> starts_within projects_block experience_block"
  "\<not> starts_within projects_block education_block" "\<not> starts_within projects_block contact_block"
  "\<not> starts_within education_block name_block" "\<not> starts_within education_block skills_block"
  "\<not> starts_within education_block experience_block" "\<not> starts_within education_block projects_block"
  "\<not> starts_within education_block contact_block" "\<not> starts_within contact_block name_block"
  "\<not> starts_within contact_block skills_block" "\<not> starts_within contact_block experience_block"
  "\<not> starts_within contact_block projects_block" "\<not> starts_within contact_block education_block"
  by (rule starts_within_mark, rule marks_prefix, rule block_clears)+

lemma blocks_nonempty:
  "name_block \<noteq> []" "skills_block \<noteq> []" "experience_block \<noteq> []" "projects_block \<noteq> []"
  "education_block \<noteq> []" "contact_block \<noteq> []"
  by (simp_all add: name_block_def skills_block_def experience_block_def projects_block_def
      education_block_def contact_block_def cmd_def)

lemma blocks_distinct:
  "distinct [name_block, skills_block, experience_block, projects_block, education_block,
     contact_block]"
proof -
  have "k \<noteq> k'" if "\<not> starts_within k k'" "k' \<noteq> []" for k k' :: pystr
    using that by (cases k') (auto simp: comparable_def)
  then show ?thesis using blocks_apart blocks_nonempty by simp
qed

lemma sections_clear_of_blocks:
  "\<not> starts_within name_block (skills_section d)"
  "\<not> starts_within name_block (experience_section d)"
  "\<not> starts_within name_block (projects_section d)"
  "\<not> starts_within name_block (education_section d)"
  "\<not> starts_within name_block (contact_section d)"
  "\<not> starts_within skills_block (name_section d)"
  "\<not> starts_within skills_block (experience_section d)"
  "\<not> starts_within skills_block (projects_section d)"
  "\<not> starts_within skills_block (education_section d)"
  "\<not> starts_within skills_block (contact_section d)"
  "\<not> starts_within experience_block (name_section d)"
  "\<not> starts_within experience_block (skills_section d)"
  "\<not> starts_within experience_block (projects_section d)"
  "\<not> starts_within experience_block (education_section d)"
  "\<not> starts_within experience_block (contact_section d)"
  "\<not> starts_within projects_block (name_section d)"
  "\<not> starts_within projects_block (skills_section d)"
  "\<not> starts_within projects_block (experience_section d)"
  "\<not> starts_within projects_block (education_section d)"
  "\<not> starts_within projects_block (contact_section d)"
  "\<not> starts_within education_block (name_section d)"
  "\<not> starts_within education_block (skills_section d)"
  "\<not> starts_within education_block (experience_section d)"
  "\<not> starts_within education_block (projects_section d)"
  "\<not> starts_within education_block (contact_section d)"
  "\<not> starts_within contact_block (name_section d)"
  "\<not> starts_within contact_block (skills_section d)"
  "\<not> starts_within contact_block (experience_section d)"
  "\<not> starts_within contact_block (projects_section d)"
  "\<not> starts_within contact_block (education_section d)"
  by (rule starts_within_mark, rule marks_prefix, rule section_clears, simp)+

lemma section_heads:
  "prefix name_mark (name_section d)" "prefix skills_mark (skills_section d)"
  "prefix list_start (experience_section d)" "prefix list_start (projects_section d)"
  "prefix list_start (education_section d)" "prefix contact_mark (contact_section d)"
  by (simp_all add: name_section_def skills_section_def experience_section_def
      projects_section_def education_section_def contact_section_def mark_defs cmd_def py_def)

lemma sections_nonempty:
  "name_section d \<noteq> []" "skills_section d \<noteq> []" "experience_section d \<noteq> []"
  "projects_section d \<noteq> []" "education_section d \<noteq> []" "contact_section d \<noteq> []"
  by (simp_all add: name_section_def skills_section_def experience_section_def
      projects_section_def education_section_def contact_section_def cmd_def)

lemma block_tails_clear:
  "\<not> starts_within name_mark (tl skills_block)" "\<not> starts_within name_mark (tl experience_block)"
  "\<not> starts_within name_mark (tl projects_block)" "\<not> starts_within name_mark (tl education_block)"
  "\<not> starts_within name_mark (tl contact_block)" "\<not> starts_within skills_mark (tl name_block)"
  "\<not> starts_within skills_mark (tl experience_block)" "\<not> starts_within skills_mark (tl projects_block)"
  "\<not> starts_within skills_mark (tl education_block)" "\<not> starts_within skills_mark (tl contact_block)"
  "\<not> starts_within contact_mark (tl name_block)" "\<not> starts_within contact_mark (tl skills_block)"
  "\<not> starts_within contact_mark (tl experience_block)" "\<not> starts_within contact_mark (tl projects_block)"
  "\<not> starts_within contact_mark (tl education_block)"
  by (rule starts_within_tl, rule block_clears)+

lemma blocks_clear_of_sections:
  "\<not> starts_within (skills_section d) (tl name_block)"
  "\<not> starts_within (experience_section d) (tl name_block)"
  "\<not> starts_within (projects_section d) (tl name_block)"
  "\<not> starts_within (education_section d) (tl name_block)"
  "\<not> starts_within (contact_section d) (tl name_block)"
  "\<not> starts_within (name_section d) (tl skills_block)"
  "\<not> starts_within (experience_section d) (tl skills_block)"
  "\<not> starts_within (projects_section d) (tl skills_block)"
  "\<not> starts_within (education_section d) (tl skills_block)"
  "\<not> starts_within (contact_section d) (tl skills_block)"
  "\<not> starts_within (name_section d) (tl experience_block)"
  "\<not> starts_within (skills_section d) (tl experience_block)"
  "\<not> starts_within (projects_section d) (tl experience_block)"
  "\<not> starts_within (education_section d) (tl experience_block)"
  "\<not> starts_within (contact_section d) (tl experience_block)"
  "\<not> starts_within (name_section d) (tl projects_block)"
  "\<not> starts_within (skills_section d) (tl projects_block)"
  "\<not> starts_within (experience_section d) (tl projects_block)"
  "\<not> starts_within (education_section d) (tl projects_block)"
  "\<not> starts_within (contact_section d) (tl projects_block)"
  "\<not> starts_within (name_section d) (tl education_block)"
  "\<not> starts_within (skills_section d) (tl education_block)"
  "\<not> starts_within (experience_section d) (tl education_block)"
  "\<not> starts_within (projects_section d) (tl education_block)"
  "\<not> starts_within (contact_section d) (tl education_block)"
  "\<not> starts_within (name_section d) (tl contact_block)"
  "\<not> starts_within (skills_section d) (tl contact_block)"
  "\<not> starts_within (experience_section d) (tl contact_block)"
  "\<not> starts_within (projects_section d) (tl contact_block)"
  "\<not> starts_within (education_section d) (tl contact_block)"
  by (rule starts_within_mark, rule section_heads, rule block_tails_clear block_clears)+

lemma replacements_independent: "independent_pairs (replacements d)"
proof -
  show ?thesis
    unfolding independent_pairs_def replacements_def
    using blocks_distinct
    by (simp add: blocks_nonempty sections_nonempty blocks_apart sections_clear_of_blocks
        blocks_clear_of_sections)
qed

section \<open>Facts about the examples\<close>

lemma join_contains: "x \<in> set xs \<Longrightarrow> \<exists>a b. join sep xs = a @ x @ b"
proof (induction sep xs rule: join.induct)
  case (1 sep)
  then show ?case by simp
next
  case (2 sep y)
  then have "join sep [y] = [] @ x @ []" by simp
  then show ?case by blast
next
  case (3 sep y z zs)
  show ?case
  proof (cases "x = y")
    case True
    then have "join sep (y # z # zs) = [] @ x @ (sep @ join sep (z # zs))" by simp
    then show ?thesis by blast
  next
    case False
    with 3 obtain a b where "join sep (z # zs) = a @ x @ b" by auto
    then have "join sep (y # z # zs) = (y @ sep @ a) @ x @ b" by simp
    then show ?thesis by blast
  qed
qed

lemma occurs_in_joined:
  assumes "x \<in> set xs"
  shows "occurs_in x (h @ join sep xs @ f)"
proof -
  from join_contains [OF assms] obtain a b where "join sep xs = a @ x @ b" by blast
  then have "h @ join sep xs @ f = (h @ a) @ x @ (b @ f)" by simp
  then show ?thesis unfolding occurs_in_iff by blast
qed

lemma four_repos_sorted:
  "sorted_reverse sort_key_of four_repos
     = [example_repo (py ''B'') 5 3, example_repo (py ''A'') 5 1,
        example_repo (py ''C'') 2 9, example_repo (py ''D'') 1 0]"
  by (simp add: four_repos_def sorted_reverse_def sort_key_of_def example_repo_def)

lemma four_repos_projects:
  "take 2 (projects (final_data_of example_url example_user four_repos))
     = [project_data_of (example_repo (py ''B'') 5 3),
        project_data_of (example_repo (py ''A'') 5 1)]"
  by (simp add: final_data_of_projects four_repos_sorted example_repo_selected)

lemma four_repos_experience:
  "take 3 (experience (final_data_of example_url example_user four_repos))
     = [exp_data_of (example_repo (py ''B'') 5 3), exp_data_of (example_repo (py ''A'') 5 1),
        exp_data_of (example_repo (py ''C'') 2 9)]"
  by (simp add: final_data_of_experience four_repos_sorted example_repo_selected)

lemma four_repos_rendered:
  "project_item (project_data_of (example_repo (py ''B'') 5 3))
     = cmd ''resumeSubheading\<newline>''
       @ py ''                {B}{GitHub}\<newline>''
       @ py ''                {Project}{Python}\<newline>''
       @ py ''                '' @ cmd ''resumeItemListStart\<newline>''
       @ py ''                ''
       @ cmd ''resumeItem{Demo. Technologies: Python. Made 15 commits. Stars: 5, Forks: 3}\<newline>''
       @ py ''                '' @ cmd ''resumeItemListEnd''"
  "\<not> occurs_in (py ''{C}{GitHub}'')
       (cmd ''resumeSubHeadingListStart\<newline>''
        @ join (py ''\<newline>'')
            (map project_item
               [project_data_of (example_repo (py ''B'') 5 3),
                project_data_of (example_repo (py ''A'') 5 1)])
        @ py ''\<newline>'' @ cmd ''resumeSubHeadingListEnd'')"
  "occurs_in (py ''{C}{Lahore}'')
       (cmd ''resumeSubHeadingListStart\<newline>''
        @ join (py ''\<newline>'')
            (map (experience_item (final_data_of example_url example_user four_repos))
               [exp_data_of (example_repo (py ''B'') 5 3),
                exp_data_of (example_repo (py ''A'') 5 1),
                exp_data_of (example_repo (py ''C'') 2 9)])
        @ py ''\<newline>'' @ cmd ''resumeSubHeadingListEnd'')"
  "\<not> occurs_in (py ''{D}{Lahore}'')
       (cmd ''resumeSubHeadingListStart\<newline>''
        @ join (py ''\<newline>'')
            (map (experience_item (final_data_of example_url example_user four_repos))
               [exp_data_of (example_repo (py ''B'') 5 3),
                exp_data_of (example_repo (py ''A'') 5 1),
                exp_data_of (example_repo (py ''C'') 2 9)])
        @ py ''\<newline>'' @ cmd ''resumeSubHeadingListEnd'')"
  by (simp_all add: project_item_def experience_item_def project_data_of_def exp_data_of_def
      description_of_def languages_of_def commit_count_of_def example_repo_def example_user_def
      final_data_of_def process_repos_eq
      str_of_int_def digits.simps sanitize_def sanitize_replacements_def replace_single
      py_def cmd_def)

lemma example_sub:
  "substitute_independently (replacements (final_data_of example_url example_user []))
          (education_block @ py ''x'' @ name_block)
     = cmd ''resumeSubHeadingListStart\<newline>''
       @ cmd ''resumeSubheading{Computer Science Student}{Lahore}''
       @ py ''{Bachelor of Science in Computer Science}{Present}\<newline>''
       @ cmd ''resumeSubHeadingListEnd''
       @ py ''x'' @ cmd ''textbf{'' @ cmd ''Huge '' @ cmd ''scshape Octo Cat}''"
  by (simp add: replacements_def name_block_def skills_block_def experience_block_def
        projects_block_def education_block_def contact_block_def
        education_section_def education_item_def name_section_def
        final_data_of_def process_repos_def sorted_reverse_def education_of_def example_user_def
        sanitize_def sanitize_replacements_def replace_single py_def cmd_def)

section \<open>The claims\<close>

subsection \<open>C1: how many projects and experience entries\<close>

text \<open>
  Claim C1 as stated (at most 2 projects and at most 3 experience entries in the extracted
  data) fails: the loop appends a project while \<open>len(projects) < 3\<close> and appends an
  experience entry with no bound. Four starred repositories give three projects and four
  experience entries.
\<close>

theorem extraction_keeps_three_projects_counterexample:
  "fetch_github_data example_url \<lparr>status_code = 200, json = example_user\<rparr>
       \<lparr>status_code = 200, json = four_repos\<rparr>
     = Inr (final_data_of example_url example_user four_repos)
   \<and> length (projects (final_data_of example_url example_user four_repos)) = 3
   \<and> length (experience (final_data_of example_url example_user four_repos)) = 4"
  by (simp add: fetch_github_data_def final_data_of_projects final_data_of_experience
      four_repos_def example_repo_selected filter_sorted_reverse)

text \<open>
  Claim C1, amended. Whenever extraction returns, the extracted data have at most 3
  projects and exactly one experience entry for every non-fork repository with a star or
  more than ten commits, with no cap. The bounds 2 and 3 of the claim are those of the
  formatter. The projects fragment is the opening line, the items of the first 2 projects
  in their order, joined by newlines, and the closing line; the experience fragment is
  the same with the items of the first 3 experience entries. Hence the item of each of
  the first 2 projects occurs in the projects fragment and the item of each of the first
  3 experience entries occurs in the experience fragment, and the entries past these
  bounds have no effect on either fragment.
\<close>

theorem extraction_and_formatter_caps:
  assumes "fetch_github_data github_url user_response repos_response = Inr d"
  shows "length (projects d) \<le> 3
   \<and> length (experience d)
       = length (filter (\<lambda>r. not_fork r \<and> significant r) (json repos_response))
   \<and> projects_section d
       = cmd ''resumeSubHeadingListStart\<newline>''
         @ join (py ''\<newline>'') (map project_item (take 2 (projects d)))
         @ py ''\<newline>'' @ cmd ''resumeSubHeadingListEnd''
   \<and> experience_section d
       = cmd ''resumeSubHeadingListStart\<newline>''
         @ join (py ''\<newline>'') (map (experience_item d) (take 3 (experience d)))
         @ py ''\<newline>'' @ cmd ''resumeSubHeadingListEnd''
   \<and> list_all (\<lambda>p. occurs_in (project_item p) (projects_section d)) (take 2 (projects d))
   \<and> list_all (\<lambda>e. occurs_in (experience_item d e) (experience_section d))
        (take 3 (experience d))
   \<and> projects_section d = projects_section (d\<lparr>projects := take 2 (projects d)\<rparr>)
   \<and> experience_section d = experience_section (d\<lparr>experience := take 3 (experience d)\<rparr>)"
proof -
  from assms have d: "d = final_data_of github_url (json user_response) (json repos_response)"
    by (auto simp: fetch_github_data_def split: if_splits)
  have "length (projects d) \<le> 3"
    unfolding d final_data_of_projects by simp
  moreover have "length (experience d)
       = length (filter (\<lambda>r. not_fork r \<and> significant r) (json repos_response))"
    unfolding d final_data_of_experience by (simp add: filter_sorted_reverse)
  moreover have "projects_section d
       = cmd ''resumeSubHeadingListStart\<newline>''
         @ join (py ''\<newline>'') (map project_item (take 2 (projects d)))
         @ py ''\<newline>'' @ cmd ''resumeSubHeadingListEnd''"
    by (simp only: projects_section_def)
  moreover have "experience_section d
       = cmd ''resumeSubHeadingListStart\<newline>''
         @ join (py ''\<newline>'') (map (experience_item d) (take 3 (experience d)))
         @ py ''\<newline>'' @ cmd ''resumeSubHeadingListEnd''"
    by (simp only: experience_section_def)
  moreover have
    "list_all (\<lambda>p. occurs_in (project_item p) (projects_section d)) (take 2 (projects d))"
    unfolding list_all_iff projects_section_def
    by (intro ballI occurs_in_joined) simp
  moreover have
    "list_all (\<lambda>e. occurs_in (experience_item d e) (experience_section d))
        (take 3 (experience d))"
    unfolding list_all_iff experience_section_def
    by (intro ballI occurs_in_joined) simp
  moreover have "projects_section d = projects_section (d\<lparr>projects := take 2 (projects d)\<rparr>)"
    by (simp add: projects_section_def)
  moreover have
    "experience_section d = experience_section (d\<lparr>experience := take 3 (experience d)\<rparr>)"
  proof -
    have "experience_item (d\<lparr>experience := take 3 (experience d)\<rparr>) = experience_item d"
      by (rule ext) (simp add: experience_item_def)
    then show ?thesis by (simp add: experience_section_def)
  qed
  ultimately show ?thesis by blast
qed

theorem extraction_and_formatter_caps_witness:
  "fetch_github_data example_url \<lparr>status_code = 200, json = example_user\<rparr>
       \<lparr>status_code = 200, json = four_repos\<rparr>
     = Inr (final_data_of example_url example_user four_repos)
   \<and> length (projects (final_data_of example_url example_user four_repos)) \<le> 3
   \<and> length (experience (final_data_of example_url example_user four_repos)) = 4
   \<and> projects_section (final_data_of example_url example_user four_repos)
       = cmd ''resumeSubHeadingListStart\<newline>''
         @ project_item (project_data_of (example_repo (py ''B'') 5 3)) @ py ''\<newline>''
         @ project_item (project_data_of (example_repo (py ''A'') 5 1)) @ py ''\<newline>''
         @ cmd ''resumeSubHeadingListEnd''
   \<and> occurs_in (project_item (project_data_of (example_repo (py ''B'') 5 3)))
        (projects_section (final_data_of example_url example_user four_repos))
   \<and> occurs_in (project_item (project_data_of (example_repo (py ''A'') 5 1)))
        (projects_section (final_data_of example_url example_user four_repos))
   \<and> project_item (project_data_of (example_repo (py ''B'') 5 3))
       = cmd ''resumeSubheading\<newline>''
         @ py ''                {B}{GitHub}\<newline>''
         @ py ''                {Project}{Python}\<newline>''
         @ py ''                '' @ cmd ''resumeItemListStart\<newline>''
         @ py ''                ''
         @ cmd ''resumeItem{Demo. Technologies: Python. Made 15 commits. Stars: 5, Forks: 3}\<newline>''
         @ py ''                '' @ cmd ''resumeItemListEnd''
   \<and> \<not> occurs_in (py ''{C}{GitHub}'')
        (projects_section (final_data_of example_url example_user four_repos))
   \<and> occurs_in (py ''{C}{Lahore}'')
        (experience_section (final_data_of example_url example_user four_repos))
   \<and> \<not> occurs_in (py ''{D}{Lahore}'')
        (experience_section (final_data_of example_url example_user four_repos))"
proof -
  let ?d = "final_data_of example_url example_user four_repos"
  have h: "fetch_github_data example_url \<lparr>status_code = 200, json = example_user\<rparr>
       \<lparr>status_code = 200, json = four_repos\<rparr> = Inr ?d"
    by (simp add: fetch_github_data_def)
  have n: "length (filter (\<lambda>r. not_fork r \<and> significant r) four_repos) = 4"
    by (simp add: four_repos_def example_repo_selected)
  note caps = extraction_and_formatter_caps [OF h]
  from caps n have lens: "length (projects ?d) \<le> 3" "length (experience ?d) = 4"
    by simp_all
  from caps have p: "projects_section ?d
       = cmd ''resumeSubHeadingListStart\<newline>''
         @ join (py ''\<newline>'')
             (map project_item
               [project_data_of (example_repo (py ''B'') 5 3),
                project_data_of (example_repo (py ''A'') 5 1)])
         @ py ''\<newline>'' @ cmd ''resumeSubHeadingListEnd''"
    by (simp only: four_repos_projects)
  from caps have e: "experience_section ?d
       = cmd ''resumeSubHeadingListStart\<newline>''
         @ join (py ''\<newline>'')
             (map (experience_item ?d)
               [exp_data_of (example_repo (py ''B'') 5 3),
                exp_data_of (example_repo (py ''A'') 5 1),
                exp_data_of (example_repo (py ''C'') 2 9)])
         @ py ''\<newline>'' @ cmd ''resumeSubHeadingListEnd''"
    by (simp only: four_repos_experience)
  from caps have
    "list_all (\<lambda>p. occurs_in (project_item p) (projects_section ?d)) (take 2 (projects ?d))"
    by blast
  then have o: "occurs_in (project_item (project_data_of (example_repo (py ''B'') 5 3)))
        (projects_section ?d)"
    "occurs_in (project_item (project_data_of (example_repo (py ''A'') 5 1)))
        (projects_section ?d)"
    by (simp_all only: four_repos_projects list.pred_inject)
  from p have p': "projects_section ?d
       = cmd ''resumeSubHeadingListStart\<newline>''
         @ project_item (project_data_of (example_repo (py ''B'') 5 3)) @ py ''\<newline>''
         @ project_item (project_data_of (example_repo (py ''A'') 5 1)) @ py ''\<newline>''
         @ cmd ''resumeSubHeadingListEnd''"
    by simp
  have "\<not> occurs_in (py ''{C}{GitHub}'') (projects_section ?d)"
    unfolding p by (rule four_repos_rendered)
  moreover have "occurs_in (py ''{C}{Lahore}'') (experience_section ?d)"
    unfolding e by (rule four_repos_rendered)
  moreover have "\<not> occurs_in (py ''{D}{Lahore}'') (experience_section ?d)"
    unfolding e by (rule four_repos_rendered)
  ultimately show ?thesis
    using h lens p' o four_repos_rendered(1) by (simp only: simp_thms)
qed

subsection \<open>C2: the order of the replacements in \<open>sanitize\<close>\<close>

text \<open>
  Claim C2. The claim asks that \<open>sanitize\<close> handle the backslash first, so that the
  backslashes of the other replacement strings are not escaped again, and that
  \<open>sanitize("A & B_C")\<close> be \<open>A \& B\_C\<close>. The table of \<open>sanitize\<close> holds the backslash in
  tenth place, after the entries for \<open>&\<close> and \<open>_\<close>: the backslashes those two entries
  have just written are replaced in turn, and the result leaves \<open>&\<close> and \<open>_\<close> themselves
  unescaped behind a \<open>\textbackslash{}\<close>. \<open>escape_latex\<close>, on the same input, gives the
  text the claim states.
\<close>

theorem sanitize_reescapes_its_own_backslashes:
  "sanitize (py ''A & B_C'') = py ''A '' @ cmd ''textbackslash{}& B'' @ cmd ''textbackslash{}_C''
   \<and> sanitize (py ''A & B_C'') \<noteq> py ''A '' @ cmd ''& B'' @ cmd ''_C''
   \<and> escape_latex (py ''A & B_C'') = py ''A '' @ cmd ''& B'' @ cmd ''_C''"
  by (simp add: sanitize_def sanitize_replacements_def replace_items_def replace_single
      escape_latex_def escape_others_def latex_special_chars_def isprintable_def strip_def
      isspace_def py_def cmd_def)

subsection \<open>C3: the replacement loop of the renderer\<close>

text \<open>
  Claim C3. The loop of the renderer is a chain: each \<open>replace\<close> is applied to the text
  that the replacements before it have produced. For the table that the renderer
  registers, whatever the data and whatever the template, the chain nevertheless gives
  exactly the text of the substitution of every pair against the original template
  (\<open>substitute_independently\<close>), and it gives that same text when the pairs are applied
  in any other order: no replacement ever meets the output of another.
\<close>

theorem renderer_substitutes_independently:
  "generate_latex_resume template github_data
     = substitute_independently (replacements github_data) template
   \<and> (mset items = mset (replacements github_data) \<longrightarrow>
        replace_items items template = generate_latex_resume template github_data)"
proof -
  have ind: "independent_pairs (replacements github_data)"
    by (rule replacements_independent)
  have a: "generate_latex_resume template github_data
     = substitute_independently (replacements github_data) template"
    unfolding generate_latex_resume_def by (rule chained_is_independent [OF ind])
  have "replace_items items template = generate_latex_resume template github_data"
    if m: "mset items = mset (replacements github_data)"
  proof -
    have "independent_pairs items" by (rule independent_pairs_permute [OF ind m])
    then have "replace_items items template = substitute_independently items template"
      by (rule chained_is_independent)
    also have "\<dots> = substitute_independently (replacements github_data) template"
      by (rule substitute_independently_permute [OF ind m])
    finally show ?thesis by (simp only: a)
  qed
  with a show ?thesis by blast
qed

theorem renderer_substitutes_independently_witness:
  "mset (rev (replacements (final_data_of example_url example_user [])))
     = mset (replacements (final_data_of example_url example_user []))
   \<and> replace_items (rev (replacements (final_data_of example_url example_user [])))
          (education_block @ py ''x'' @ name_block)
     = cmd ''resumeSubHeadingListStart\<newline>''
       @ cmd ''resumeSubheading{Computer Science Student}{Lahore}''
       @ py ''{Bachelor of Science in Computer Science}{Present}\<newline>''
       @ cmd ''resumeSubHeadingListEnd''
       @ py ''x'' @ cmd ''textbf{'' @ cmd ''Huge '' @ cmd ''scshape Octo Cat}''"
proof -
  have m: "mset (rev (replacements (final_data_of example_url example_user [])))
     = mset (replacements (final_data_of example_url example_user []))"
    by simp
  from renderer_substitutes_independently
    [of "education_block @ py ''x'' @ name_block" "final_data_of example_url example_user []"
      "rev (replacements (final_data_of example_url example_user []))"] m
  have "replace_items (rev (replacements (final_data_of example_url example_user [])))
          (education_block @ py ''x'' @ name_block)
     = substitute_independently (replacements (final_data_of example_url example_user []))
          (education_block @ py ''x'' @ name_block)"
    by simp
  with m show ?thesis by (simp only: example_sub simp_thms)
qed

subsection \<open>C4: the order of the repositories\<close>

text \<open>
  Claim C4. The loop visits the repositories in descending order of the pair
  \<open>(stargazers_count, forks_count)\<close>: the visiting order is a permutation of the input, its
  keys descend, a pair is above another when it has more stars or as many stars and at
  least as many forks, and repositories with the same key keep their input order. The
  experience and project entries are produced in that order. For A (5 stars, 1 fork),
  B (5 stars, 3 forks) and C (2 stars, 9 forks) the order is B, A, C.
\<close>

theorem repositories_sorted_descending_stable:
  "mset (sorted_reverse sort_key_of repos) = mset repos
   \<and> sorted_wrt (\<lambda>a b. sort_key_of a \<ge> sort_key_of b) (sorted_reverse sort_key_of repos)
   \<and> (sort_key_of a \<ge> sort_key_of b) =
       (stargazers_count a > stargazers_count b
        \<or> (stargazers_count a = stargazers_count b
            \<and> get_or (forks_count a) 0 \<ge> get_or (forks_count b) 0))
   \<and> filter (\<lambda>r. sort_key_of r = k) (sorted_reverse sort_key_of repos)
       = filter (\<lambda>r. sort_key_of r = k) repos
   \<and> experience (final_data_of github_url user repos)
       = map exp_data_of
           (filter (\<lambda>r. not_fork r \<and> significant r) (sorted_reverse sort_key_of repos))
   \<and> projects (final_data_of github_url user repos)
       = take 3 (map project_data_of
           (filter (\<lambda>r. not_fork r \<and> significant r) (sorted_reverse sort_key_of repos)))
   \<and> map raw_repo.name
         (sorted_reverse sort_key_of
            [example_repo (py ''A'') 5 1, example_repo (py ''B'') 5 3, example_repo (py ''C'') 2 9])
       = [py ''B'', py ''A'', py ''C'']
   \<and> map exp_data.company
         (experience (final_data_of example_url example_user
            [example_repo (py ''A'') 5 1, example_repo (py ''B'') 5 3, example_repo (py ''C'') 2 9]))
       = [py ''B'', py ''A'', py ''C'']"
proof -
  have order: "(sort_key_of a \<ge> sort_key_of b) =
       (stargazers_count a > stargazers_count b
        \<or> (stargazers_count a = stargazers_count b
            \<and> get_or (forks_count a) 0 \<ge> get_or (forks_count b) 0))"
    by (auto simp: sort_key_of_def less_eq_prod_def)
  have sorted3: "sorted_reverse sort_key_of
            [example_repo (py ''A'') 5 1, example_repo (py ''B'') 5 3, example_repo (py ''C'') 2 9]
       = [example_repo (py ''B'') 5 3, example_repo (py ''A'') 5 1, example_repo (py ''C'') 2 9]"
    by (simp add: sorted_reverse_def sort_key_of_def example_repo_def)
  have names: "map raw_repo.name
         [example_repo (py ''B'') 5 3, example_repo (py ''A'') 5 1, example_repo (py ''C'') 2 9]
       = [py ''B'', py ''A'', py ''C'']"
    by (simp add: example_repo_def)
  have companies: "map exp_data.company (map exp_data_of
         [example_repo (py ''B'') 5 3, example_repo (py ''A'') 5 1, example_repo (py ''C'') 2 9])
       = [py ''B'', py ''A'', py ''C'']"
    by (simp add: example_repo_def exp_data_of_def replace_single py_def)
  have "map exp_data.company
         (experience (final_data_of example_url example_user
            [example_repo (py ''A'') 5 1, example_repo (py ''B'') 5 3, example_repo (py ''C'') 2 9]))
       = [py ''B'', py ''A'', py ''C'']"
    unfolding final_data_of_experience sorted3 using companies
    by (simp add: example_repo_selected)
  then show ?thesis
    using order names
    by (simp only: mset_sorted_reverse sorted_reverse_desc sorted_reverse_stable
        final_data_of_experience final_data_of_projects sorted3 simp_thms)
qed

subsection \<open>C5: forks\<close>

text \<open>
  Claim C5. A repository whose \<open>fork\<close> is true contributes nothing: removing all such
  repositories from the input does not change the result of extraction. The skills are
  exactly the languages of the repositories that are not forks, and every project and
  every experience entry is made from a repository that is not a fork.
\<close>

theorem forked_repositories_contribute_nothing:
  "fetch_github_data github_url user_response
       (repos_response\<lparr>json := filter not_fork (json repos_response)\<rparr>)
     = fetch_github_data github_url user_response repos_response
   \<and> not_fork repo = (fork repo \<noteq> Some True)
   \<and> set (skills (final_data_of github_url user repos))
       = \<Union> (set (map (\<lambda>r. set (languages_of r)) (filter not_fork repos)))
   \<and> set (projects (final_data_of github_url user repos))
       \<subseteq> set (map project_data_of (filter not_fork repos))
   \<and> set (experience (final_data_of github_url user repos))
       \<subseteq> set (map exp_data_of (filter not_fork repos))"
proof -
  have "fetch_github_data github_url user_response
       (repos_response\<lparr>json := filter not_fork (json repos_response)\<rparr>)
     = fetch_github_data github_url user_response repos_response"
    by (simp add: fetch_github_data_def final_data_of_filter_forks)
  moreover have "set (skills (final_data_of github_url user repos))
       = \<Union> (set (map (\<lambda>r. set (languages_of r)) (filter not_fork repos)))"
    by (simp add: final_data_of_skills)
  moreover have "set (projects (final_data_of github_url user repos))
       \<subseteq> set (map project_data_of (filter not_fork repos))"
  proof -
    have "set (take 3 (map project_data_of
        (filter (\<lambda>r. not_fork r \<and> significant r) (sorted_reverse sort_key_of repos))))
      \<subseteq> set (map project_data_of
        (filter (\<lambda>r. not_fork r \<and> significant r) (sorted_reverse sort_key_of repos)))"
      by (rule set_take_subset)
    also have "\<dots> \<subseteq> set (map project_data_of (filter not_fork repos))"
      by auto
    finally show ?thesis by (simp only: final_data_of_projects)
  qed
  moreover have "set (experience (final_data_of github_url user repos))
       \<subseteq> set (map exp_data_of (filter not_fork repos))"
    unfolding final_data_of_experience by auto
  ultimately show ?thesis by (simp add: not_fork_def)
qed

subsection \<open>C6: education\<close>

text \<open>
  Claim C6. Whenever extraction returns, the education list is non-empty exactly when the
  user object has a bio that is a non-empty string (an absent or \<open>null\<close> bio counts as
  empty), and a non-empty education list is the single entry with the fixed school and
  degree and the date \<open>Present\<close>.
\<close>

theorem education_present_iff_bio_nonempty:
  assumes "fetch_github_data github_url user_response repos_response = Inr d"
  shows "(education d \<noteq> []) = (\<exists>s. user_data.bio (json user_response) = Val s \<and> s \<noteq> [])
   \<and> (education d = []
       \<or> education d =
           [\<lparr>education_data.school = py ''Computer Science Student'',
             education_data.degree = py ''Bachelor of Science in Computer Science'',
             education_data.date = py ''Present'',
             education_data.gpa = []\<rparr>])"
proof -
  from assms have d: "d = final_data_of github_url (json user_response) (json repos_response)"
    by (auto simp: fetch_github_data_def split: if_splits)
  show ?thesis
    unfolding d final_data_of_education
    by (cases "user_data.bio (json user_response)") (auto simp: education_of_def)
qed

theorem education_present_iff_bio_nonempty_witness:
  "fetch_github_data example_url \<lparr>status_code = 200, json = example_user\<rparr>
       \<lparr>status_code = 200, json = four_repos\<rparr>
     = Inr (final_data_of example_url example_user four_repos)
   \<and> user_data.bio example_user = Val (py ''Student'')
   \<and> education (final_data_of example_url example_user four_repos) =
           [\<lparr>education_data.school = py ''Computer Science Student'',
             education_data.degree = py ''Bachelor of Science in Computer Science'',
             education_data.date = py ''Present'',
             education_data.gpa = []\<rparr>]"
proof -
  have h: "fetch_github_data example_url \<lparr>status_code = 200, json = example_user\<rparr>
       \<lparr>status_code = 200, json = four_repos\<rparr>
     = Inr (final_data_of example_url example_user four_repos)"
    by (simp add: fetch_github_data_def)
  have b: "user_data.bio example_user = Val (py ''Student'')" "py ''Student'' \<noteq> []"
    by (simp_all add: example_user_def py_def)
  from education_present_iff_bio_nonempty [OF h] h b show ?thesis by auto
qed

subsection \<open>C7: the composed description\<close>

text \<open>
  Claim C7 asks for the fallback \<open>A project\<close> whenever the description is absent or empty.
  The code reads \<open>repo.get('description', 'A project')\<close>, whose default applies only when
  the key is missing. A repository object whose description is \<open>null\<close>, which is what the
  hosting service sends for a repository without a description, is printed as \<open>None\<close>,
  and an empty description is printed as nothing; only a missing key gives \<open>A project\<close>.
\<close>

theorem description_of_null_prints_None:
  "description_of ((example_repo (py ''A'') 10 0)\<lparr>raw_repo.description := Null\<rparr>)
     = py ''None. Technologies: Python. Made 15 commits. Stars: 10, Forks: 0''
   \<and> description_of ((example_repo (py ''A'') 10 0)\<lparr>raw_repo.description := Val []\<rparr>)
     = py ''. Technologies: Python. Made 15 commits. Stars: 10, Forks: 0''
   \<and> description_of ((example_repo (py ''A'') 10 0)\<lparr>raw_repo.description := Absent\<rparr>)
     = py ''A project. Technologies: Python. Made 15 commits. Stars: 10, Forks: 0''
   \<and> map project_data.description
        (projects (final_data_of example_url example_user
           [(example_repo (py ''A'') 10 0)\<lparr>raw_repo.description := Null\<rparr>]))
     = [py ''None. Technologies: Python. Made 15 commits. Stars: 10, Forks: 0'']"
  by (simp add: final_data_of_projects sorted_reverse_def not_fork_def significant_def
      project_data_of_def description_of_def languages_of_def commit_count_of_def
      example_repo_def str_of_int_def digits.simps py_def)

subsection \<open>C8: the contact fragment\<close>

text \<open>
  Claim C8 as stated fails: the contact fragment is one fixed f-string that always writes
  both links. For a user whose blog is the empty string the fragment contains the
  Portfolio link with an empty target.
\<close>

theorem contact_renders_empty_links_counterexample:
  "final_data.blog (final_data_of example_url example_user []) = Some []
   \<and> contact_section (final_data_of example_url example_user []) =
       cmd ''begin{center}\<newline>''
       @ cmd ''small  $|$ '' @ cmd ''href{https://github.com/octo}{GitHub} $|$ ''
       @ cmd ''href{}{Portfolio}\<newline>''
       @ cmd ''end{center}''
   \<and> occurs_in (cmd ''href{}{Portfolio}'') (contact_section (final_data_of example_url example_user []))"
  by (simp add: contact_section_def final_data_of_def process_repos_def sorted_reverse_def
      example_user_def example_url_def sanitize_def sanitize_replacements_def replace_single py_def cmd_def)

text \<open>
  Claim C8, amended. For every extracted data value the contact fragment contains the
  profile link labelled \<open>GitHub\<close> and the blog link labelled \<open>Portfolio\<close>, each with its
  sanitized URL as target, whether or not that URL is empty; no link is ever omitted.
\<close>

theorem contact_always_renders_both_links:
  "occurs_in (cmd ''href{'' @ sanitize (profile_url github_data) @ py ''}{GitHub}'')
     (contact_section github_data)
   \<and> occurs_in (cmd ''href{'' @ sanitize_value (final_data.blog github_data) @ py ''}{Portfolio}'')
     (contact_section github_data)"
proof -
  define g where "g = cmd ''href{'' @ sanitize (profile_url github_data) @ py ''}{GitHub}''"
  define b where
    "b = cmd ''href{'' @ sanitize_value (final_data.blog github_data) @ py ''}{Portfolio}''"
  have "contact_section github_data =
      (cmd ''begin{center}\<newline>'' @ cmd ''small ''
        @ sanitize_value (final_data.email github_data) @ py '' $|$ '')
      @ g @ (py '' $|$ '' @ b @ py ''\<newline>'' @ cmd ''end{center}'')"
    by (simp add: contact_section_def g_def b_def sanitize_labels, simp add: py_def)
  then have "occurs_in g (contact_section github_data)"
    by (simp only: occurs_in_middle)
  moreover have "contact_section github_data =
      (cmd ''begin{center}\<newline>'' @ cmd ''small ''
        @ sanitize_value (final_data.email github_data) @ py '' $|$ '' @ g @ py '' $|$ '')
      @ b @ (py ''\<newline>'' @ cmd ''end{center}'')"
    by (simp add: contact_section_def g_def b_def sanitize_labels, simp add: py_def)
  then have "occurs_in b (contact_section github_data)"
    by (simp only: occurs_in_middle)
  ultimately show ?thesis by (simp only: g_def b_def simp_thms)
qed

subsection \<open>C9: what the sanitizers remove\<close>

text \<open>
  Claim C9. The claim asks that the output of the sanitizer contain no character that is
  not printable and have no leading or trailing whitespace. \<open>sanitize\<close> neither filters
  on \<open>isprintable\<close> nor strips: it returns the bell character, which is not printable,
  as it is, and it returns a letter between two blanks with its two blanks.
  \<open>escape_latex\<close>, on the same two inputs, removes the bell character and the blanks, as
  the claim states.
\<close>

theorem sanitize_keeps_controls_and_blanks:
  "sanitize [7] = [7] \<and> \<not> isprintable 7
   \<and> sanitize (py '' a '') = py '' a '' \<and> isspace (hd (py '' a '')) \<and> isspace (last (py '' a ''))
   \<and> escape_latex [7] = [] \<and> escape_latex (py '' a '') = py ''a''"
  by (simp add: sanitize_def sanitize_replacements_def replace_single isprintable_def
      isspace_def py_def cmd_def escape_latex_def escape_others_def latex_special_chars_def
      strip_def)

subsection \<open>C10: the braces of the backslash replacement in \<open>escape_latex\<close>\<close>

text \<open>
  Claim C10. In \<open>escape_latex\<close> the braces that the backslash substitution writes are
  escaped by the later entries for \<open>{\<close> and \<open>}\<close>: a lone backslash becomes
  \<open>\textbackslash\{\}\<close>, not the replacement string \<open>\textbackslash{}\<close> of the table;
  every input that contains a backslash gives an output that contains
  \<open>\textbackslash\{\}\<close>; and the replacement string \<open>\textbackslash{}\<close> occurs in no
  output at all.
\<close>

theorem escape_latex_backslash_braces_reescaped:
  "escape_latex [92] = cmd ''textbackslash'' @ cmd ''{'' @ cmd ''}''
   \<and> escape_latex [92] \<noteq> cmd ''textbackslash{}''
   \<and> (92 \<in> set s \<longrightarrow>
        occurs_in (cmd ''textbackslash'' @ cmd ''{'' @ cmd ''}'') (escape_latex s))
   \<and> \<not> occurs_in (cmd ''textbackslash{}'') (escape_latex s)"
proof -
  have "escape_latex [92] = cmd ''textbackslash'' @ cmd ''{'' @ cmd ''}''"
    by (simp add: escape_latex_def escape_others_def latex_special_chars_def replace_single
        isprintable_def strip_def isspace_def py_def cmd_def)
  moreover have "cmd ''textbackslash'' @ cmd ''{'' @ cmd ''}'' \<noteq> cmd ''textbackslash{}''"
    by (simp add: py_def cmd_def)
  ultimately show ?thesis
    by (simp add: escape_latex_backslash_general escape_latex_never_plain)
qed

theorem escape_latex_backslash_braces_reescaped_witness:
  "92 \<in> set (py ''a'' @ [92] @ py ''b'')
   \<and> occurs_in (cmd ''textbackslash'' @ cmd ''{'' @ cmd ''}'')
        (escape_latex (py ''a'' @ [92] @ py ''b''))"
proof -
  have h: "92 \<in> set (py ''a'' @ [92] @ py ''b'')" by simp
  with escape_latex_backslash_braces_reescaped [of "py ''a'' @ [92] @ py ''b''"]
  show ?thesis by blast
qed

end
